theory Spec2Isabelle
  imports Complex_Main
begin

section \<open>Strings and numerals of the host language\<close>

text \<open>
  The program is TypeScript. Its strings are modelled as \<^typ>\<open>string\<close> restricted to ASCII:
  transaction hashes are hexadecimal text and the error messages matched below are English.
  Integral numbers (\<open>Date.now()\<close>, parsed timestamps, counters) are \<^typ>\<open>int\<close> or
  \<^typ>\<open>nat\<close>; they stay far below \<open>2^53\<close>, where the host's doubles are exact.
  Fractional clock readings and latencies (\<open>performance.now()\<close>) are \<^typ>\<open>real\<close>, the
  exact-arithmetic reading of the doubles.

  \<open>DemoLane\<close> is the union type \<open>'flashblocks' | 'normal'\<close>.
\<close>

datatype DemoLane = Flashblocks | Normal

text \<open>
  \<open>toLowerCase\<close> maps \<open>A..Z\<close> to \<open>a..z\<close> and leaves every other character alone.
\<close>

fun indexOf :: "'a \<Rightarrow> 'a list \<Rightarrow> nat option" where
  "indexOf x [] = None"
| "indexOf x (y # ys) = (if x = y then Some 0 else map_option Suc (indexOf x ys))"

definition toLowerChar :: "char \<Rightarrow> char" where
  "toLowerChar c =
     (case indexOf c ''ABCDEFGHIJKLMNOPQRSTUVWXYZ'' of
        None \<Rightarrow> c
      | Some i \<Rightarrow> ''abcdefghijklmnopqrstuvwxyz'' ! i)"

definition toLowerCase :: "string \<Rightarrow> string" where
  "toLowerCase s = map toLowerChar s"

text \<open>
  \<open>Number.prototype.toString(16)\<close> on an integer: lower-case digits, most significant first,
  with a leading minus sign for a negative number (\<open>toString16\<close>). \<open>digitVal\<close> is the value of
  a hexadecimal digit in either case, as \<open>parseInt\<close> reads it.
\<close>

definition hexAlphabet :: string where
  "hexAlphabet = ''0123456789abcdef''"

definition hexDigitChar :: "nat \<Rightarrow> char" where
  "hexDigitChar d = hexAlphabet ! d"

definition digitVal :: "char \<Rightarrow> nat option" where
  "digitVal c = indexOf (toLowerChar c) hexAlphabet"

function natToHex :: "nat \<Rightarrow> string" where
  "natToHex n = (if n < 16 then [hexDigitChar n] else natToHex (n div 16) @ [hexDigitChar (n mod 16)])"
  by pat_completeness auto
termination
  by (relation "measure id") auto

declare natToHex.simps [simp del]

definition toString16 :: "int \<Rightarrow> string" where
  "toString16 i = (if i < 0 then CHR ''-'' # natToHex (nat (- i)) else natToHex (nat i))"

text \<open>
  \<open>s.padStart(n, c)\<close> and \<open>s.slice(-n)\<close>.
\<close>

definition padStart :: "nat \<Rightarrow> char \<Rightarrow> string \<Rightarrow> string" where
  "padStart n c s = replicate (n - length s) c @ s"

definition sliceLast :: "nat \<Rightarrow> string \<Rightarrow> string" where
  "sliceLast n s = drop (length s - n) s"

section \<open>The spoof engine (src/lib/demo-tx.ts)\<close>

text \<open>
  \<open>buildSpoofTxHash\<close>: \<open>0x\<close>, the two-character lane code, the creation time as exactly twelve
  hexadecimal digits (floor, base 16, padded to twelve, last twelve kept) and fifty random
  hexadecimal characters. The random bytes are a parameter of the model.
\<close>

definition SPOOF_LANE_CODE :: "DemoLane \<Rightarrow> string" where
  "SPOOF_LANE_CODE lane = (case lane of Flashblocks \<Rightarrow> ''f1'' | Normal \<Rightarrow> ''f2'')"

definition buildSpoofTxHash :: "DemoLane \<Rightarrow> real \<Rightarrow> string \<Rightarrow> string" where
  "buildSpoofTxHash lane createdAtMs randomHex =
     (let laneCode = SPOOF_LANE_CODE lane;
          timestampHex = sliceLast 12 (padStart 12 (CHR ''0'') (toString16 \<lfloor>createdAtMs\<rfloor>))
      in ''0x'' @ laneCode @ timestampHex @ randomHex)"

text \<open>
  \<open>Number.parseInt(s, 16)\<close>: leading white space is skipped, a sign is read, a \<open>0x\<close> prefix is
  dropped, and the longest prefix of hexadecimal digits is the value; no digit at all gives
  \<open>NaN\<close>, here \<open>None\<close>. \<open>hexValue\<close> stops at the first character that is not a digit.
  White space is the ASCII white space.
\<close>

fun hexValue :: "nat \<Rightarrow> string \<Rightarrow> nat" where
  "hexValue acc [] = acc"
| "hexValue acc (c # cs) =
     (case digitVal c of None \<Rightarrow> acc | Some d \<Rightarrow> hexValue (16 * acc + d) cs)"

definition isWhiteSpace :: "char \<Rightarrow> bool" where
  "isWhiteSpace c \<longleftrightarrow> c \<in> set [CHR 0x09, CHR 0x0A, CHR 0x0B, CHR 0x0C, CHR 0x0D, CHR '' '']"

definition parseInt16 :: "string \<Rightarrow> int option" where
  "parseInt16 s =
     (let s1 = dropWhile isWhiteSpace s;
          negative = (take 1 s1 = ''-'');
          s2 = (if take 1 s1 = ''-'' \<or> take 1 s1 = ''+'' then drop 1 s1 else s1);
          s3 = (if take 2 s2 = ''0x'' \<or> take 2 s2 = ''0X'' then drop 2 s2 else s2)
      in case s3 of
           [] \<Rightarrow> None
         | c # _ \<Rightarrow>
             (if digitVal c = None then None
              else Some (if negative then - int (hexValue 0 s3) else int (hexValue 0 s3))))"

text \<open>
  \<open>parseSpoofTxHash\<close> returns \<open>null\<close> (here \<open>None\<close>) when the lane code is neither \<open>f1\<close> nor
  \<open>f2\<close>, or when the timestamp field does not parse to a finite number.
\<close>

record SpoofTx =
  lane :: DemoLane
  createdAtMs :: int

definition parseSpoofTxHash :: "string \<Rightarrow> SpoofTx option" where
  "parseSpoofTxHash txHash =
     (let raw = toLowerCase (drop 2 txHash);
          laneCode = take 2 raw;
          timestampHex = take 12 (drop 2 raw);
          laneOpt = (if laneCode = ''f1'' then Some Flashblocks
                     else if laneCode = ''f2'' then Some Normal
                     else None)
      in case laneOpt of
           None \<Rightarrow> None
         | Some l \<Rightarrow>
             (case parseInt16 timestampHex of
                None \<Rightarrow> None
              | Some t \<Rightarrow> Some \<lparr> lane = l, createdAtMs = t \<rparr>))"

section \<open>Exceptions\<close>

text \<open>
  A thrown value: an \<open>Error\<close> instance with its \<open>name\<close> and \<open>message\<close>, another object with
  its \<open>name\<close> property if it has one, or a primitive. \<open>stringIncludes s p\<close> is
  \<open>s.includes(p)\<close>.
\<close>

datatype thrown = JsError string string | JsObject "string option" | JsPrimitive

fun stringIncludes :: "string \<Rightarrow> string \<Rightarrow> bool" where
  "stringIncludes [] p = (p = [])"
| "stringIncludes (c # cs) p = (take (length p) (c # cs) = p \<or> stringIncludes cs p)"

definition isNonceSyncError :: "thrown \<Rightarrow> bool" where
  "isNonceSyncError err =
     (case err of
        JsError _ msg \<Rightarrow>
          (let message = toLowerCase msg
           in stringIncludes message ''nonce provided for the transaction is lower'' \<or>
              stringIncludes message ''nonce too low'' \<or>
              stringIncludes message ''already known'')
      | _ \<Rightarrow> False)"

section \<open>Confirmation checks (src/lib/demo-tx.ts)\<close>

text \<open>
  The constants of the latest revision of the file: the per-lane spoof delays in milliseconds,
  the tag a spoofed confirmation reports, the block tag of the normal lane and the synthetic
  sender addresses.
\<close>

definition SPOOF_CONFIRMATION_DELAY_MS_BY_LANE :: "DemoLane \<Rightarrow> int" where
  "SPOOF_CONFIRMATION_DELAY_MS_BY_LANE laneId = (case laneId of Flashblocks \<Rightarrow> 800 | Normal \<Rightarrow> 2500)"

datatype ConfirmationMethod = Pending | Latest | Receipt | NoMethod

definition SPOOF_METHOD_BY_LANE :: "DemoLane \<Rightarrow> ConfirmationMethod" where
  "SPOOF_METHOD_BY_LANE laneId = (case laneId of Flashblocks \<Rightarrow> Receipt | Normal \<Rightarrow> Latest)"

definition NORMAL_BLOCK_TAG :: string where
  "NORMAL_BLOCK_TAG = ''latest''"

definition SPOOF_FROM_BY_LANE :: "DemoLane \<Rightarrow> string" where
  "SPOOF_FROM_BY_LANE laneId =
     (case laneId of
        Flashblocks \<Rightarrow> ''0x00000000000000000000000000000000000000F1''
      | Normal \<Rightarrow> ''0x00000000000000000000000000000000000000F2'')"

text \<open>
  The chain node is outside the program. Its answers are parameters: \<open>Rpc\<close> gives, for each
  query the program makes, either the exception the transport raised or the decoded answer
  (\<open>None\<close> for JSON \<open>null\<close>). \<open>hexToNumber\<close> is the library function that decodes a
  hexadecimal quantity; it may raise.
\<close>

record RpcPendingBlock =
  number :: "string option"
  transactions :: "string list option"

record RpcTransactionReceipt =
  receiptBlockNumber :: "string option"

record Rpc =
  eth_getTransactionReceipt :: "string \<Rightarrow> thrown + RpcTransactionReceipt option"
  eth_getBlockByNumber :: "string \<Rightarrow> thrown + RpcPendingBlock option"
  hexToNumber :: "string \<Rightarrow> thrown + int"

text \<open>
  The verdict \<open>{confirmed, method, blockNumber}\<close>; its field \<open>method\<close> is written
  \<open>methodTag\<close> here, and the tag \<open>'none'\<close> is \<open>NoMethod\<close>. \<open>confirmedAt\<close> is the positive
  verdict with the block number decoded when the node supplied one and \<open>null\<close> otherwise.
\<close>

record Confirmation =
  confirmed :: bool
  methodTag :: ConfirmationMethod
  blockNumber :: "int option"

definition unconfirmed :: Confirmation where
  "unconfirmed = \<lparr> confirmed = False, methodTag = NoMethod, blockNumber = None \<rparr>"

definition confirmedAt :: "Rpc \<Rightarrow> ConfirmationMethod \<Rightarrow> string option \<Rightarrow> thrown + Confirmation" where
  "confirmedAt rpc m num =
     (case num of
        None \<Rightarrow> Inr \<lparr> confirmed = True, methodTag = m, blockNumber = None \<rparr>
      | Some hx \<Rightarrow>
          (case hexToNumber rpc hx of
             Inl err \<Rightarrow> Inl err
           | Inr n \<Rightarrow> Inr \<lparr> confirmed = True, methodTag = m, blockNumber = Some n \<rparr>))"

text \<open>
  \<open>checkLaneConfirmation\<close>, with the module constant \<open>spoofTransactions\<close>, the reading of
  \<open>Date.now()\<close> and the node as parameters. In spoof mode the handle is decoded and compared
  with the lane and the delay. In live mode the flashblocks lane polls the receipt and
  confirms on any receipt; the normal lane scans the transaction list of the latest block.
\<close>

definition checkLaneConfirmation ::
  "bool \<Rightarrow> int \<Rightarrow> Rpc \<Rightarrow> DemoLane \<Rightarrow> string \<Rightarrow> thrown + Confirmation" where
  "checkLaneConfirmation spoofTransactions dateNow rpc laneId hash =
     (if spoofTransactions then
        (case parseSpoofTxHash hash of
           None \<Rightarrow> Inr unconfirmed
         | Some spoofTx \<Rightarrow>
             if lane spoofTx \<noteq> laneId then Inr unconfirmed
             else if dateNow - createdAtMs spoofTx < SPOOF_CONFIRMATION_DELAY_MS_BY_LANE laneId
               then Inr unconfirmed
             else Inr \<lparr> confirmed = True, methodTag = SPOOF_METHOD_BY_LANE laneId, blockNumber = None \<rparr>)
      else if laneId = Flashblocks then
        (case eth_getTransactionReceipt rpc hash of
           Inl err \<Rightarrow> Inl err
         | Inr None \<Rightarrow> Inr unconfirmed
         | Inr (Some receipt) \<Rightarrow> confirmedAt rpc Receipt (receiptBlockNumber receipt))
      else
        (case eth_getBlockByNumber rpc NORMAL_BLOCK_TAG of
           Inl err \<Rightarrow> Inl err
         | Inr block \<Rightarrow>
             (let inBlock =
                    (case block of
                       None \<Rightarrow> False
                     | Some b \<Rightarrow>
                         (case transactions b of
                            None \<Rightarrow> False
                          | Some txs \<Rightarrow>
                              list_ex (\<lambda>candidateTxHash.
                                 toLowerCase candidateTxHash = toLowerCase hash) txs))
              in if inBlock
                 then confirmedAt rpc Latest (case block of None \<Rightarrow> None | Some b \<Rightarrow> number b)
                 else Inr unconfirmed)))"

text \<open>
  The file also holds two earlier revisions of the module. For comparison, the live branch
  of the first one: the flashblocks lane scans the block of the configured tag (\<open>pending\<close>
  unless \<open>latest\<close> is configured) and falls back to the receipt; the normal lane polls the
  receipt only; and a receipt counts only with a block number that is neither \<open>null\<close> nor
  empty (\<open>receipt?.blockNumber\<close>). The latest revision, above, is the program.
\<close>

definition flashblocksBlockTagName :: "ConfirmationMethod \<Rightarrow> string" where
  "flashblocksBlockTagName tag = (if tag = Latest then ''latest'' else ''pending'')"

definition checkLaneConfirmationLive1 ::
  "ConfirmationMethod \<Rightarrow> Rpc \<Rightarrow> DemoLane \<Rightarrow> string \<Rightarrow> thrown + Confirmation" where
  "checkLaneConfirmationLive1 flashblocksBlockTag rpc laneId hash =
     (let receiptPoll =
            (case eth_getTransactionReceipt rpc hash of
               Inl err \<Rightarrow> Inl err
             | Inr None \<Rightarrow> Inr unconfirmed
             | Inr (Some receipt) \<Rightarrow>
                 (case receiptBlockNumber receipt of
                    None \<Rightarrow> Inr unconfirmed
                  | Some hx \<Rightarrow>
                      if hx = [] then Inr unconfirmed
                      else
                        (case hexToNumber rpc hx of
                           Inl err \<Rightarrow> Inl err
                         | Inr n \<Rightarrow> Inr \<lparr> confirmed = True, methodTag = Receipt,
                                          blockNumber = Some n \<rparr>)))
      in if laneId = Flashblocks then
           (case eth_getBlockByNumber rpc (flashblocksBlockTagName flashblocksBlockTag) of
              Inl err \<Rightarrow> Inl err
            | Inr pendingBlock \<Rightarrow>
                (let inPendingBlock =
                       (case pendingBlock of
                          None \<Rightarrow> False
                        | Some b \<Rightarrow>
                            (case transactions b of
                               None \<Rightarrow> False
                             | Some txs \<Rightarrow>
                                 list_ex (\<lambda>pendingTxHash.
                                    toLowerCase pendingTxHash = toLowerCase hash) txs))
                 in if inPendingBlock
                    then confirmedAt rpc flashblocksBlockTag
                           (case pendingBlock of None \<Rightarrow> None | Some b \<Rightarrow> number b)
                    else receiptPoll))
         else receiptPoll)"

section \<open>Sending (src/lib/demo-tx.ts)\<close>

text \<open>
  The wallet client is outside the program. \<open>outcome k\<close> is what the \<open>k\<close>-th call of
  \<open>walletClient.sendTransaction\<close> returns or raises; \<open>SendState\<close> counts the calls made and
  logs, in order, every send attempt and every reset of the nonce manager.
  \<open>sendOperation\<close> is the closure handed to \<open>enqueueSendTransaction\<close>: one attempt, and after
  a nonce synchronisation error one reset followed by one more attempt whose result is
  returned as it is.
  \<open>enqueueSendTransaction\<close> chains the operation behind the operations enqueued before it;
  the state \<open>s\<close> is the state at the moment the operation gets its turn.
\<close>

datatype SendEvent = SendAttempt | NonceReset

record SendState =
  attempts :: nat
  sendLog :: "SendEvent list"

definition sendTransaction ::
  "(nat \<Rightarrow> thrown + string) \<Rightarrow> SendState \<Rightarrow> (thrown + string) \<times> SendState" where
  "sendTransaction outcome s =
     (outcome (attempts s),
      s\<lparr> attempts := attempts s + 1, sendLog := sendLog s @ [SendAttempt] \<rparr>)"

definition nonceManagerReset :: "SendState \<Rightarrow> SendState" where
  "nonceManagerReset s = s\<lparr> sendLog := sendLog s @ [NonceReset] \<rparr>"

definition sendOperation ::
  "(nat \<Rightarrow> thrown + string) \<Rightarrow> SendState \<Rightarrow> (thrown + string) \<times> SendState" where
  "sendOperation outcome s =
     (case sendTransaction outcome s of
        (Inr h, s1) \<Rightarrow> (Inr h, s1)
      | (Inl err, s1) \<Rightarrow>
          if \<not> isNonceSyncError err then (Inl err, s1)
          else sendTransaction outcome (nonceManagerReset s1))"

definition enqueueSendTransaction ::
  "(SendState \<Rightarrow> (thrown + string) \<times> SendState) \<Rightarrow> SendState \<Rightarrow> (thrown + string) \<times> SendState" where
  "enqueueSendTransaction operation s = operation s"

text \<open>
  \<open>sendLaneTransaction\<close>: in spoof mode a synthetic handle built from \<open>Date.now()\<close>, with no
  network call; in live mode the queued send. \<open>walletProvider\<close> is the wallet configuration,
  either the exception raised while reading it or the sender address. The field \<open>from\<close> of
  the result is written \<open>fromAddress\<close> here.
\<close>

record SendResult =
  txHash :: string
  fromAddress :: string

definition sendLaneTransaction ::
  "bool \<Rightarrow> int \<Rightarrow> string \<Rightarrow> (thrown + string) \<Rightarrow> (nat \<Rightarrow> thrown + string) \<Rightarrow>
   DemoLane \<Rightarrow> SendState \<Rightarrow> (thrown + SendResult) \<times> SendState" where
  "sendLaneTransaction spoofTransactions dateNow randomHex walletProvider outcome laneId s =
     (if spoofTransactions then
        (Inr \<lparr> txHash = buildSpoofTxHash laneId (of_int dateNow) randomHex,
               fromAddress = SPOOF_FROM_BY_LANE laneId \<rparr>, s)
      else
        (case walletProvider of
           Inl err \<Rightarrow> (Inl err, s)
         | Inr address \<Rightarrow>
             (case enqueueSendTransaction (sendOperation outcome) s of
                (Inl err, s') \<Rightarrow> (Inl err, s')
              | (Inr h, s') \<Rightarrow> (Inr \<lparr> txHash = h, fromAddress = address \<rparr>, s'))))"

section \<open>The race component (ConfirmationRaceDemo)\<close>

text \<open>
  \<open>LaneState\<close> and \<open>LaneStatus\<close> as declared in the component.
\<close>

datatype LaneStatus = Idle | Sending | Waiting | Confirmed | Error | Stopped

record LaneState =
  status :: LaneStatus
  sendsAttempted :: nat
  confirmationsObserved :: nat
  latestLatencyMs :: "real option"
  averageLatencyMs :: "real option"
  lastConfirmationMethod :: "ConfirmationMethod option"
  lastError :: "string option"
  sendAnimationTick :: nat
  confirmAnimationTick :: nat

text \<open>
  \<open>Request\<close> is a call of \<open>postJson\<close> to one of the two routes. \<open>settled\<close> is how an awaited
  promise ends.
\<close>

datatype Request = SendRequest DemoLane | ConfirmRequest DemoLane string

datatype 'a settled = Fulfilled 'a | Rejected thrown

definition MAX_RUNTIME_MS :: int where
  "MAX_RUNTIME_MS = 8000"

definition CONFIRM_POLL_MS :: int where
  "CONFIRM_POLL_MS = 90"

definition LANE_PACKET_ANIMATION_MS :: "DemoLane \<Rightarrow> real" where
  "LANE_PACKET_ANIMATION_MS laneId = (case laneId of Flashblocks \<Rightarrow> 420 | Normal \<Rightarrow> 560)"

definition INITIAL_LANE :: LaneState where
  "INITIAL_LANE =
     \<lparr> status = Idle, sendsAttempted = 0, confirmationsObserved = 0,
       latestLatencyMs = None, averageLatencyMs = None, lastConfirmationMethod = None,
       lastError = None, sendAnimationTick = 0, confirmAnimationTick = 0 \<rparr>"

definition INITIAL_LANES :: "DemoLane \<Rightarrow> LaneState" where
  "INITIAL_LANES = (\<lambda>laneId. INITIAL_LANE)"

definition asErrorMessage :: "thrown \<Rightarrow> string" where
  "asErrorMessage err = (case err of JsError _ msg \<Rightarrow> msg | _ \<Rightarrow> ''Unexpected request failure'')"

definition isInsufficientFundsError :: "string \<Rightarrow> bool" where
  "isInsufficientFundsError message =
     (let normalized = toLowerCase message
      in stringIncludes normalized ''insufficient funds'' \<or>
         stringIncludes normalized ''exceeds the balance of the account'' \<or>
         stringIncludes normalized ''gas * price + value'')"

definition isAbortError :: "thrown \<Rightarrow> bool" where
  "isAbortError err =
     (case err of
        JsError nm _ \<Rightarrow> nm = ''AbortError''
      | JsObject (Some nm) \<Rightarrow> nm = ''AbortError''
      | _ \<Rightarrow> False)"

text \<open>
  The state of the component: its React state (\<open>isRunning\<close>, \<open>lanes\<close>, \<open>remainingMs\<close>,
  \<open>fatalErrorMessage\<close>) and its refs. State updates are applied in the order in which they
  are enqueued. \<open>stopTimerRef\<close> records whether the auto-stop timer is armed, each pending
  send-animation timer is kept with the lane, the token and the delay it was created with,
  and a request in flight is named by its position in \<open>requests\<close>, the log of every
  \<open>postJson\<close> call issued so far. The run token is a counter; it is modelled without bound.
  Aborting the requests in flight empties their set; an aborted request reaches its loop
  later, as a rejection. The wallet snapshot, the countdown display and the clean-up on
  unmount take no part in a run and are left out.
\<close>

record Component =
  isRunning :: bool
  lanes :: "DemoLane \<Rightarrow> LaneState"
  remainingMs :: int
  fatalErrorMessage :: "string option"
  runTokenRef :: nat
  runDeadlineRef :: "int option"
  stopTimerRef :: bool
  confirmAnimationUntilRef :: "DemoLane \<Rightarrow> real"
  animationTimersRef :: "(DemoLane \<times> nat \<times> real) list"
  inFlightRequestsRef :: "nat set"
  requests :: "Request list"

definition updateLane :: "DemoLane \<Rightarrow> (LaneState \<Rightarrow> LaneState) \<Rightarrow> Component \<Rightarrow> Component" where
  "updateLane laneId updater c = c\<lparr> lanes := (lanes c)(laneId := updater (lanes c laneId)) \<rparr>"

definition isActiveRun :: "Component \<Rightarrow> nat \<Rightarrow> int \<Rightarrow> bool" where
  "isActiveRun c token dateNow =
     (runTokenRef c = token \<and>
      (case runDeadlineRef c of None \<Rightarrow> False | Some deadline \<Rightarrow> dateNow < deadline))"

definition abortInFlightRequests :: "Component \<Rightarrow> Component" where
  "abortInFlightRequests c = c\<lparr> inFlightRequestsRef := {} \<rparr>"

definition clearAnimationTimers :: "Component \<Rightarrow> Component" where
  "clearAnimationTimers c = c\<lparr> animationTimersRef := [] \<rparr>"

definition scheduleLaneSendAnimation :: "DemoLane \<Rightarrow> nat \<Rightarrow> real \<Rightarrow> Component \<Rightarrow> Component" where
  "scheduleLaneSendAnimation laneId token delayMs c =
     c\<lparr> animationTimersRef := animationTimersRef c @ [(laneId, token, delayMs)] \<rparr>"

definition triggerLaneSendAnimation :: "DemoLane \<Rightarrow> nat \<Rightarrow> real \<Rightarrow> Component \<Rightarrow> Component" where
  "triggerLaneSendAnimation laneId token performanceNow c =
     (let blockedUntil = confirmAnimationUntilRef c laneId;
          delayMs = max 0 (blockedUntil - performanceNow)
      in scheduleLaneSendAnimation laneId token delayMs c)"

definition sendAnimationTimerFired :: "nat \<Rightarrow> int \<Rightarrow> Component \<Rightarrow> Component" where
  "sendAnimationTimerFired k dateNow c =
     (if k < length (animationTimersRef c) then
        (case animationTimersRef c ! k of
           (laneId, token, _) \<Rightarrow>
             (let c1 = c\<lparr> animationTimersRef :=
                          take k (animationTimersRef c) @ drop (Suc k) (animationTimersRef c) \<rparr>
              in if \<not> isActiveRun c1 token dateNow then c1
                 else updateLane laneId
                        (\<lambda>current. current\<lparr> sendAnimationTick := sendAnimationTick current + 1 \<rparr>) c1))
      else c)"

definition setStoppedStatuses :: "Component \<Rightarrow> Component" where
  "setStoppedStatuses c = c\<lparr> lanes := (\<lambda>laneId. (lanes c laneId)\<lparr> status := Stopped \<rparr>) \<rparr>"

definition stopRun :: "Component \<Rightarrow> Component" where
  "stopRun c =
     (let c1 = c\<lparr> stopTimerRef := False \<rparr>;
          c2 = c1\<lparr> runTokenRef := runTokenRef c1 + 1 \<rparr>;
          c3 = c2\<lparr> runDeadlineRef := None \<rparr>;
          c4 = c3\<lparr> confirmAnimationUntilRef := (\<lambda>laneId. 0) \<rparr>;
          c5 = abortInFlightRequests c4;
          c6 = clearAnimationTimers c5;
          c7 = c6\<lparr> isRunning := False \<rparr>;
          c8 = c7\<lparr> remainingMs := 0 \<rparr>
      in setStoppedStatuses c8)"

text \<open>
  \<open>postJson\<close> registers an abort controller and issues the request; \<open>postJsonSettled\<close> is its
  \<open>finally\<close> block, run when the request settles.
\<close>

definition postJson :: "Request \<Rightarrow> Component \<Rightarrow> nat \<times> Component" where
  "postJson request c =
     (let controller = length (requests c)
      in (controller,
          c\<lparr> inFlightRequestsRef := insert controller (inFlightRequestsRef c),
             requests := requests c @ [request] \<rparr>))"

definition postJsonSettled :: "nat \<Rightarrow> Component \<Rightarrow> Component" where
  "postJsonSettled controller c = c\<lparr> inFlightRequestsRef := inFlightRequestsRef c - {controller} \<rparr>"

text \<open>
  \<open>runLaneLoop\<close> is an asynchronous function. The scheduler is cooperative and
  single-threaded, so the code between two \<open>await\<close>s runs without interruption: the loop is
  modelled as one function per such segment, each from the component state to the new state
  and the point where the loop waits next (\<open>LoopPoint\<close>, with the local variables that are
  live there).
  \<^item> \<open>sendCycle\<close>: the head of the outer \<open>while\<close> up to the send request;
  \<^item> \<open>afterSend\<close>: from the settled send to the first poll, the retry sleep or the return;
  \<^item> \<open>pollCycle\<close>: the head of the inner \<open>while\<close> up to the confirm request;
  \<^item> \<open>afterConfirm\<close>: from the settled poll to the poll sleep or the next loop head;
  \<^item> \<open>finishCycle\<close>: after the inner loop, the metrics update and the next outer iteration.
  \<open>recordConfirmation\<close> is the updater applied to the lane state when a cycle is confirmed.
  The local \<open>confirmationMethod\<close> is read only after a response set it together with
  \<open>confirmed = true\<close>, so it is not kept across a wait.

  The clocks may move while a segment runs. A segment therefore takes the readings as
  functions: \<open>dateNow i\<close> is what \<open>Date.now()\<close> returns at the \<open>i\<close>-th place of the segment that
  reads it, \<open>performanceNow i\<close> likewise for \<open>performance.now()\<close>, and \<open>laterReads k\<close> hands
  the readings after the first \<open>k\<close> places to the code that follows.
\<close>

definition laterReads :: "nat \<Rightarrow> (nat \<Rightarrow> 'a) \<Rightarrow> (nat \<Rightarrow> 'a)" where
  "laterReads k readings = (\<lambda>i. readings (i + k))"

datatype LoopPoint =
    AwaitSend real nat
  | AwaitRetrySleep
  | AwaitConfirm real string nat
  | AwaitPollSleep real string
  | Returned

definition laneName :: "DemoLane \<Rightarrow> string" where
  "laneName laneId = (case laneId of Flashblocks \<Rightarrow> ''flashblocks'' | Normal \<Rightarrow> ''normal'')"

definition recordConfirmation :: "real \<Rightarrow> ConfirmationMethod \<Rightarrow> LaneState \<Rightarrow> LaneState" where
  "recordConfirmation latencyMs confirmationMethod current =
     (let nextConfirmations = confirmationsObserved current + 1;
          totalLatency =
            (case averageLatencyMs current of None \<Rightarrow> 0 | Some avg \<Rightarrow> avg)
              * real (confirmationsObserved current) + latencyMs
      in current\<lparr> status := Confirmed,
                  confirmationsObserved := nextConfirmations,
                  latestLatencyMs := Some latencyMs,
                  averageLatencyMs := Some (totalLatency / real nextConfirmations),
                  confirmAnimationTick := confirmAnimationTick current + 1,
                  lastConfirmationMethod :=
                    (if confirmationMethod = NoMethod then None else Some confirmationMethod) \<rparr>)"

definition sendCycle ::
  "DemoLane \<Rightarrow> nat \<Rightarrow> (nat \<Rightarrow> int) \<Rightarrow> (nat \<Rightarrow> real) \<Rightarrow> Component \<Rightarrow> Component \<times> LoopPoint" where
  "sendCycle laneId token dateNow performanceNow c =
     (if isActiveRun c token (dateNow 0) then
        (let sendStartAt = performanceNow 0;
             c1 = updateLane laneId
                    (\<lambda>current. current\<lparr> status := Sending,
                                         sendsAttempted := sendsAttempted current + 1,
                                         lastError := None \<rparr>) c;
             (controller, c2) = postJson (SendRequest laneId) c1
         in (c2, AwaitSend sendStartAt controller))
      else (c, Returned))"

definition finishCycle ::
  "DemoLane \<Rightarrow> nat \<Rightarrow> real \<Rightarrow> bool \<Rightarrow> ConfirmationMethod \<Rightarrow> (nat \<Rightarrow> int) \<Rightarrow> (nat \<Rightarrow> real)
   \<Rightarrow> Component \<Rightarrow> Component \<times> LoopPoint" where
  "finishCycle laneId token sendStartAt isConfirmed confirmationMethod dateNow performanceNow c =
     (if \<not> isConfirmed \<or> \<not> isActiveRun c token (dateNow 0) then
        sendCycle laneId token (laterReads 1 dateNow) performanceNow c
      else
        (let latencyMs = performanceNow 0 - sendStartAt;
             c1 = c\<lparr> confirmAnimationUntilRef :=
                        (confirmAnimationUntilRef c)
                          (laneId := performanceNow 1 + LANE_PACKET_ANIMATION_MS laneId) \<rparr>;
             c2 = updateLane laneId (recordConfirmation latencyMs confirmationMethod) c1
         in sendCycle laneId token (laterReads 1 dateNow) (laterReads 2 performanceNow) c2))"

definition pollCycle ::
  "DemoLane \<Rightarrow> nat \<Rightarrow> real \<Rightarrow> string \<Rightarrow> bool \<Rightarrow> ConfirmationMethod \<Rightarrow> (nat \<Rightarrow> int)
   \<Rightarrow> (nat \<Rightarrow> real) \<Rightarrow> Component \<Rightarrow> Component \<times> LoopPoint" where
  "pollCycle laneId token sendStartAt hash isConfirmed confirmationMethod dateNow performanceNow c =
     (if isActiveRun c token (dateNow 0) \<and> \<not> isConfirmed then
        (let (controller, c1) = postJson (ConfirmRequest laneId hash) c
         in (c1, AwaitConfirm sendStartAt hash controller))
      else finishCycle laneId token sendStartAt isConfirmed confirmationMethod
             (laterReads 1 dateNow) performanceNow c)"

definition afterSend ::
  "DemoLane \<Rightarrow> nat \<Rightarrow> real \<Rightarrow> nat \<Rightarrow> SendResult settled \<Rightarrow> (nat \<Rightarrow> int) \<Rightarrow> (nat \<Rightarrow> real)
   \<Rightarrow> Component \<Rightarrow> Component \<times> LoopPoint" where
  "afterSend laneId token sendStartAt controller outcome dateNow performanceNow c =
     (let c0 = postJsonSettled controller c
      in case outcome of
           Fulfilled sendResult \<Rightarrow>
             if \<not> isActiveRun c0 token (dateNow 0) then (c0, Returned)
             else
               (let c1 = triggerLaneSendAnimation laneId token (performanceNow 0) c0;
                    c2 = updateLane laneId (\<lambda>current. current\<lparr> status := Waiting \<rparr>) c1
                in pollCycle laneId token sendStartAt (txHash sendResult) False NoMethod
                     (laterReads 1 dateNow) (laterReads 1 performanceNow) c2)
         | Rejected err \<Rightarrow>
             if \<not> isActiveRun c0 token (dateNow 0) \<or> isAbortError err then (c0, Returned)
             else
               (let message = asErrorMessage err
                in if isInsufficientFundsError message then
                     (let c1 = updateLane laneId
                                 (\<lambda>current. current\<lparr> status := Error,
                                                      lastError := Some message \<rparr>) c0;
                          c2 = c1\<lparr> fatalErrorMessage :=
                                     Some (''Demo wallet is out of gas funds ('' @ laneName laneId @
                                           '' lane send failed). Fund the wallet and try again.'') \<rparr>
                      in (stopRun c2, Returned))
                   else
                     (updateLane laneId
                        (\<lambda>current. current\<lparr> status := Error, lastError := Some message \<rparr>) c0,
                      AwaitRetrySleep)))"

definition afterConfirm ::
  "DemoLane \<Rightarrow> nat \<Rightarrow> real \<Rightarrow> string \<Rightarrow> nat \<Rightarrow> Confirmation settled \<Rightarrow> (nat \<Rightarrow> int)
   \<Rightarrow> (nat \<Rightarrow> real) \<Rightarrow> Component \<Rightarrow> Component \<times> LoopPoint" where
  "afterConfirm laneId token sendStartAt hash controller outcome dateNow performanceNow c =
     (let c0 = postJsonSettled controller c;
          afterTry = (\<lambda>isConfirmed confirmationMethod.
             if \<not> isConfirmed \<and> isActiveRun c0 token (dateNow 1)
             then (c0, AwaitPollSleep sendStartAt hash)
             else pollCycle laneId token sendStartAt hash isConfirmed confirmationMethod
                    (laterReads 2 dateNow) performanceNow c0)
      in case outcome of
           Fulfilled confirmationResult \<Rightarrow>
             afterTry (confirmed confirmationResult) (methodTag confirmationResult)
         | Rejected err \<Rightarrow>
             if \<not> isActiveRun c0 token (dateNow 0) \<or> isAbortError err then (c0, Returned)
             else afterTry False NoMethod)"

text \<open>
  What resumes a waiting loop, and the dispatch on the point where it waits. How long a
  sleep or a request takes is left open: the wait ends when the event arrives.
\<close>

datatype Wake =
    SendSettled "SendResult settled"
  | ConfirmSettled "Confirmation settled"
  | SleepElapsed

definition resumeLoop ::
  "DemoLane \<Rightarrow> nat \<Rightarrow> LoopPoint \<Rightarrow> Wake \<Rightarrow> (nat \<Rightarrow> int) \<Rightarrow> (nat \<Rightarrow> real) \<Rightarrow> Component
   \<Rightarrow> Component \<times> LoopPoint" where
  "resumeLoop laneId token point wake dateNow performanceNow c =
     (case (point, wake) of
        (AwaitSend sendStartAt controller, SendSettled outcome) \<Rightarrow>
          afterSend laneId token sendStartAt controller outcome dateNow performanceNow c
      | (AwaitRetrySleep, SleepElapsed) \<Rightarrow>
          sendCycle laneId token dateNow performanceNow c
      | (AwaitConfirm sendStartAt hash controller, ConfirmSettled outcome) \<Rightarrow>
          afterConfirm laneId token sendStartAt hash controller outcome dateNow performanceNow c
      | (AwaitPollSleep sendStartAt hash, SleepElapsed) \<Rightarrow>
          pollCycle laneId token sendStartAt hash False NoMethod dateNow performanceNow c
      | _ \<Rightarrow> (c, point))"

text \<open>
  The component together with every lane loop started so far. \<open>startRun\<close> runs both loops up
  to their first wait. An \<open>Event\<close> is whatever the scheduler runs next: a click, the auto-stop
  timer, the resumption of loop \<open>i\<close> with what it waited for, or a send-animation timer.
\<close>

record System =
  component :: Component
  loops :: "(DemoLane \<times> nat \<times> LoopPoint) list"

definition startRun :: "(nat \<Rightarrow> int) \<Rightarrow> (nat \<Rightarrow> real) \<Rightarrow> System \<Rightarrow> System" where
  "startRun dateNow performanceNow sys =
     (let c = component sys
      in if isRunning c then sys
         else
           (let c1 = c\<lparr> stopTimerRef := False \<rparr>;
                c2 = c1\<lparr> runTokenRef := runTokenRef c1 + 1 \<rparr>;
                token = runTokenRef c2;
                deadline = dateNow 0 + MAX_RUNTIME_MS;
                c3 = c2\<lparr> runDeadlineRef := Some deadline,
                         confirmAnimationUntilRef := (\<lambda>laneId. 0),
                         lanes := INITIAL_LANES,
                         fatalErrorMessage := None,
                         isRunning := True,
                         remainingMs := MAX_RUNTIME_MS,
                         stopTimerRef := True \<rparr>;
                (c4, p1) = sendCycle Flashblocks token (laterReads 1 dateNow) performanceNow c3;
                (c5, p2) = sendCycle Normal token (laterReads 2 dateNow)
                             (laterReads 1 performanceNow) c4
            in \<lparr> component = c5,
                 loops = loops sys @ [(Flashblocks, token, p1), (Normal, token, p2)] \<rparr>))"

datatype Event =
    StartClicked "nat \<Rightarrow> int" "nat \<Rightarrow> real"
  | StopClicked
  | StopTimerFired
  | LoopResumed nat Wake "nat \<Rightarrow> int" "nat \<Rightarrow> real"
  | AnimationTimerFired nat int

definition step :: "System \<Rightarrow> Event \<Rightarrow> System" where
  "step sys event =
     (case event of
        StartClicked dateNow performanceNow \<Rightarrow> startRun dateNow performanceNow sys
      | StopClicked \<Rightarrow> sys\<lparr> component := stopRun (component sys) \<rparr>
      | StopTimerFired \<Rightarrow>
          if stopTimerRef (component sys) then sys\<lparr> component := stopRun (component sys) \<rparr>
          else sys
      | LoopResumed i wake dateNow performanceNow \<Rightarrow>
          if i < length (loops sys) then
            (case loops sys ! i of
               (laneId, token, point) \<Rightarrow>
                 (let (c', point') = resumeLoop laneId token point wake dateNow performanceNow
                                       (component sys)
                  in \<lparr> component = c', loops = (loops sys)[i := (laneId, token, point')] \<rparr>))
          else sys
      | AnimationTimerFired k dateNow \<Rightarrow>
          sys\<lparr> component := sendAnimationTimerFired k dateNow (component sys) \<rparr>)"

definition initialSystem :: System where
  "initialSystem =
     \<lparr> component =
         \<lparr> isRunning = False, lanes = INITIAL_LANES, remainingMs = MAX_RUNTIME_MS,
           fatalErrorMessage = None, runTokenRef = 0, runDeadlineRef = None,
           stopTimerRef = False, confirmAnimationUntilRef = (\<lambda>laneId. 0),
           animationTimersRef = [], inFlightRequestsRef = {}, requests = [] \<rparr>,
       loops = [] \<rparr>"

text \<open>
  \<open>isStart\<close> recognises a click on Start.
\<close>

definition isStart :: "Event \<Rightarrow> bool" where
  "isStart event = (case event of StartClicked _ _ \<Rightarrow> True | _ \<Rightarrow> False)"

section \<open>The start route: duration validation\<close>

text \<open>
  A value of type \<open>unknown\<close> as far as \<open>parseDurationSeconds\<close> looks at it, and the parsed
  request body as far as the handler looks at it: \<open>null\<close>, an object with the value of its
  \<open>durationSeconds\<close> property (\<open>undefined\<close> when absent), or another JSON value, on which that
  property is \<open>undefined\<close>. The handler answers 400 with a message, fails with an uncaught
  \<open>TypeError\<close> when the body is \<open>null\<close>, or opens the event stream of the run for the accepted
  duration; the stream's \<open>durationMs\<close> is that duration times 1000, rounded.
\<close>

datatype JsNumber = Finite real | NaN | PosInfinity | NegInfinity

datatype JsValue =
    JsUndefined | JsNull | JsBoolean bool | JsNum JsNumber | JsString string | JsOther

datatype RequestBody = BodyNull | BodyObject JsValue | BodyOther

datatype Response = BadRequest string | Unhandled | RunStream real

definition MIN_DURATION_SECONDS :: real where
  "MIN_DURATION_SECONDS = 1"

definition MAX_DURATION_SECONDS :: real where
  "MAX_DURATION_SECONDS = 60"

definition parseDurationSeconds :: "JsValue \<Rightarrow> real option" where
  "parseDurationSeconds v =
     (case v of
        JsNum (Finite x) \<Rightarrow>
          if x < MIN_DURATION_SECONDS \<or> x > MAX_DURATION_SECONDS then None else Some x
      | _ \<Rightarrow> None)"

definition POST :: "thrown + RequestBody \<Rightarrow> Response" where
  "POST parsedJson =
     (case parsedJson of
        Inl _ \<Rightarrow> BadRequest ''Invalid JSON body''
      | Inr BodyNull \<Rightarrow> Unhandled
      | Inr body \<Rightarrow>
          (let v = (case body of BodyObject d \<Rightarrow> d | _ \<Rightarrow> JsUndefined)
           in case parseDurationSeconds v of
                None \<Rightarrow> BadRequest ''durationSeconds must be a number between 1 and 60''
              | Some durationSeconds \<Rightarrow> RunStream durationSeconds))"

section \<open>Invariants of the run token\<close>

text \<open>
  \<open>tokensBounded\<close>: no loop and no pending animation timer carries a token above the current
  one. \<open>quiescent\<close>: every loop and timer carries a token below the current one and both lanes
  show \<open>stopped\<close>.
\<close>

definition tokensBounded :: "System \<Rightarrow> bool" where
  "tokensBounded sys \<longleftrightarrow>
     (\<forall>entry \<in> set (loops sys). fst (snd entry) \<le> runTokenRef (component sys)) \<and>
     (\<forall>timer \<in> set (animationTimersRef (component sys)).
        fst (snd timer) \<le> runTokenRef (component sys))"

definition quiescent :: "System \<Rightarrow> bool" where
  "quiescent sys \<longleftrightarrow>
     (\<forall>entry \<in> set (loops sys). fst (snd entry) < runTokenRef (component sys)) \<and>
     (\<forall>timer \<in> set (animationTimersRef (component sys)).
        fst (snd timer) < runTokenRef (component sys)) \<and>
     (\<forall>laneId. status (lanes (component sys) laneId) = Stopped)"

section \<open>Observing the latencies of a run\<close>

text \<open>
  \<open>laneMetrics\<close> collects the three latency fields of a lane. \<open>latencyHistory\<close> is what an
  observer of a run records for a lane: each time \<open>confirmationsObserved\<close> grows by one, the
  value of \<open>latestLatencyMs\<close> shown then; the record starts afresh when the count returns to
  zero, which a new run does.
\<close>

definition laneMetrics :: "LaneState \<Rightarrow> nat \<times> real option \<times> real option" where
  "laneMetrics laneState =
     (confirmationsObserved laneState, averageLatencyMs laneState, latestLatencyMs laneState)"

definition observeConfirmation :: "DemoLane \<Rightarrow> System \<Rightarrow> System \<Rightarrow> real list \<Rightarrow> real list" where
  "observeConfirmation laneId before after history =
     (let n = confirmationsObserved (lanes (component before) laneId);
          n' = confirmationsObserved (lanes (component after) laneId)
      in if n' = n + 1 then
           history @ [case latestLatencyMs (lanes (component after) laneId) of
                        None \<Rightarrow> 0 | Some latencyMs \<Rightarrow> latencyMs]
         else if n' = 0 then []
         else history)"

fun latencyHistory :: "DemoLane \<Rightarrow> System \<Rightarrow> Event list \<Rightarrow> real list \<Rightarrow> real list" where
  "latencyHistory laneId sys [] history = history"
| "latencyHistory laneId sys (event # events) history =
     latencyHistory laneId (step sys event) events
       (observeConfirmation laneId sys (step sys event) history)"

section \<open>Hexadecimal numerals: auxiliary lemmas\<close>

lemma digit_cases: "d < 16 \<Longrightarrow> d \<in> {0,1,2,3,4,5,6,7,8,9,10,11,12,13,14,15::nat}"
  by simp arith

lemma toLower_hexAlphabet: "c \<in> set hexAlphabet \<Longrightarrow> toLowerChar c = c"
  unfolding hexAlphabet_def
  apply (simp only: set_simps)
  apply (elim insertE emptyE)
  apply (simp_all add: toLowerChar_def)
  done

lemma digitVal_hexAlphabet: "i < 16 \<Longrightarrow> digitVal (hexAlphabet ! i) = Some i"
  apply (drule digit_cases)
  apply (elim insertE emptyE)
  apply (simp_all add: digitVal_def hexAlphabet_def toLowerChar_def)
  done

lemma length_hexAlphabet: "length hexAlphabet = 16"
  by (simp add: hexAlphabet_def)

lemma hexDigitChar_mem: "d < 16 \<Longrightarrow> hexDigitChar d \<in> set hexAlphabet"
  unfolding hexDigitChar_def by (rule nth_mem) (simp add: length_hexAlphabet)

lemma digitVal_hexDigitChar: "d < 16 \<Longrightarrow> digitVal (hexDigitChar d) = Some d"
  unfolding hexDigitChar_def by (rule digitVal_hexAlphabet)

lemma natToHex_set: "set (natToHex n) \<subseteq> set hexAlphabet"
proof (induction n rule: natToHex.induct)
  case (1 n)
  show ?case
  proof (cases "n < 16")
    case True
    then show ?thesis by (subst natToHex.simps) (simp add: hexDigitChar_mem)
  next
    case False
    have "n mod 16 < 16" by simp
    then have "hexDigitChar (n mod 16) \<in> set hexAlphabet" by (rule hexDigitChar_mem)
    with False 1 show ?thesis by (subst natToHex.simps) simp
  qed
qed

lemma hexValue_append:
  "set xs \<subseteq> set hexAlphabet \<Longrightarrow> hexValue acc (xs @ ys) = hexValue (hexValue acc xs) ys"
proof (induction xs arbitrary: acc)
  case Nil
  then show ?case by simp
next
  case (Cons c cs)
  from Cons.prems have "c \<in> set hexAlphabet" by simp
  then obtain i where i: "i < 16" "c = hexAlphabet ! i"
    by (metis in_set_conv_nth length_hexAlphabet)
  then have "digitVal c = Some i" by (simp add: digitVal_hexAlphabet)
  with Cons show ?case by simp
qed

lemma hexValue_natToHex_acc: "hexValue 0 (natToHex n) = n"
proof (induction n rule: natToHex.induct)
  case (1 n)
  show ?case
  proof (cases "n < 16")
    case True
    then show ?thesis by (subst natToHex.simps) (simp add: digitVal_hexDigitChar)
  next
    case False
    have d: "digitVal (hexDigitChar (n mod 16)) = Some (n mod 16)"
      by (rule digitVal_hexDigitChar) simp
    have "hexValue 0 (natToHex n) = hexValue 0 (natToHex (n div 16) @ [hexDigitChar (n mod 16)])"
      using False by (subst natToHex.simps) simp
    also have "\<dots> = hexValue (hexValue 0 (natToHex (n div 16))) [hexDigitChar (n mod 16)]"
      by (rule hexValue_append) (rule natToHex_set)
    also have "\<dots> = 16 * (n div 16) + n mod 16"
      using 1 False d by simp
    finally show ?thesis by simp
  qed
qed

lemma hexValue_zeros: "hexValue 0 (replicate k (CHR ''0'') @ xs) = hexValue 0 xs"
proof (induction k)
  case 0
  then show ?case by simp
next
  case (Suc k)
  have "digitVal (CHR ''0'') = Some 0"
    by (simp add: digitVal_def hexAlphabet_def toLowerChar_def)
  with Suc show ?case by simp
qed

lemma length_natToHex: "0 < k \<Longrightarrow> n < 16 ^ k \<Longrightarrow> length (natToHex n) \<le> k"
proof (induction n arbitrary: k rule: natToHex.induct)
  case (1 n)
  show ?case
  proof (cases "n < 16")
    case True
    with 1(2) show ?thesis by (subst natToHex.simps) simp
  next
    case False
    with 1(3) have "k \<noteq> 1" by auto
    with 1(2) obtain j where j: "k = Suc j" "0 < j" by (cases k) auto
    with 1(3) have "n div 16 < 16 ^ j"
      by (simp add: less_mult_imp_div_less mult.commute)
    with 1(1)[OF False j(2)] have "length (natToHex (n div 16)) \<le> j" .
    with False j show ?thesis by (subst natToHex.simps) simp
  qed
qed

section \<open>Spoof transaction hashes\<close>

lemma toLowerCase_hex: "set xs \<subseteq> set hexAlphabet \<Longrightarrow> toLowerCase xs = xs"
  unfolding toLowerCase_def by (induction xs) (simp_all add: toLower_hexAlphabet)

lemma toLowerCase_append: "toLowerCase (xs @ ys) = toLowerCase xs @ toLowerCase ys"
  by (simp add: toLowerCase_def)

lemma toLowerCase_laneCode: "toLowerCase (SPOOF_LANE_CODE laneId) = SPOOF_LANE_CODE laneId"
  by (cases laneId) (simp_all add: SPOOF_LANE_CODE_def toLowerCase_def toLowerChar_def)

lemma length_laneCode: "length (SPOOF_LANE_CODE laneId) = 2"
  by (cases laneId) (simp_all add: SPOOF_LANE_CODE_def)

lemma natToHex_nonempty: "natToHex n \<noteq> []"
  by (subst natToHex.simps) simp

lemma timestampHex_padded:
  assumes "0 \<le> i" "i < 2 ^ 48"
  shows "\<exists>k. sliceLast 12 (padStart 12 (CHR ''0'') (toString16 i))
               = replicate k (CHR ''0'') @ natToHex (nat i)
             \<and> k + length (natToHex (nat i)) = 12"
proof -
  have "nat i < 16 ^ 12" using assms by (simp add: nat_less_iff)
  then have len: "length (natToHex (nat i)) \<le> 12"
    by (intro length_natToHex) simp_all
  with assms have
    "sliceLast 12 (padStart 12 (CHR ''0'') (toString16 i))
       = replicate (12 - length (natToHex (nat i))) (CHR ''0'') @ natToHex (nat i)"
    by (simp add: sliceLast_def padStart_def toString16_def)
  with len show ?thesis by (intro exI[of _ "12 - length (natToHex (nat i))"]) simp
qed

lemma parseInt16_hex:
  assumes "set xs \<subseteq> set hexAlphabet" "xs \<noteq> []"
  shows "parseInt16 xs = Some (int (hexValue 0 xs))"
proof -
  from assms obtain c cs where xs: "xs = c # cs" by (cases xs) auto
  with assms have c: "c \<in> set hexAlphabet" by simp
  then obtain i where i: "i < 16" "c = hexAlphabet ! i"
    by (metis in_set_conv_nth length_hexAlphabet)
  then have dv: "digitVal c = Some i" by (simp add: digitVal_hexAlphabet)
  from c have nws: "\<not> isWhiteSpace c" "c \<noteq> CHR ''-''" "c \<noteq> CHR ''+''"
    by (auto simp: hexAlphabet_def isWhiteSpace_def)
  have nox: "take 2 xs \<noteq> ''0x''" "take 2 xs \<noteq> ''0X''"
  proof -
    have "CHR ''x'' \<notin> set hexAlphabet" "CHR ''X'' \<notin> set hexAlphabet"
      by (simp_all add: hexAlphabet_def)
    with assms(1) have "CHR ''x'' \<notin> set xs" "CHR ''X'' \<notin> set xs" by auto
    then have "CHR ''x'' \<notin> set (take 2 xs)" "CHR ''X'' \<notin> set (take 2 xs)"
      by (auto dest: in_set_takeD)
    then show "take 2 xs \<noteq> ''0x''" "take 2 xs \<noteq> ''0X''" by auto
  qed
  from nws xs have s1: "dropWhile isWhiteSpace xs = xs" by simp
  from nws xs have t1: "take 1 xs \<noteq> ''-''" "take 1 xs \<noteq> ''+''" by simp_all
  have fin: "(case xs of [] \<Rightarrow> None
         | c # _ \<Rightarrow> if digitVal c = None then None else Some (int (hexValue 0 xs)))
        = Some (int (hexValue 0 xs))"
    by (simp add: xs dv)
  show ?thesis
    using s1 t1 nox fin by (simp add: parseInt16_def Let_def)
qed

lemma parseSpoofTxHash_field:
  assumes len: "length field = 12" and hexset: "set field \<subseteq> set hexAlphabet"
  shows "parseSpoofTxHash (''0x'' @ SPOOF_LANE_CODE laneId @ field @ randomHex)
         = Some \<lparr> lane = laneId, createdAtMs = int (hexValue 0 field) \<rparr>"
proof -
  from len have nonempty: "field \<noteq> []" by auto
  have pi: "parseInt16 field = Some (int (hexValue 0 field))"
    by (rule parseInt16_hex[OF hexset nonempty])
  have raw: "toLowerCase (drop 2 (''0x'' @ SPOOF_LANE_CODE laneId @ field @ randomHex))
             = SPOOF_LANE_CODE laneId @ field @ toLowerCase randomHex"
    by (simp add: toLowerCase_append toLowerCase_laneCode toLowerCase_hex hexset)
  have code: "take 2 (SPOOF_LANE_CODE laneId @ field @ toLowerCase randomHex) = SPOOF_LANE_CODE laneId"
    by (simp add: length_laneCode)
  have fld: "take 12 (drop 2 (SPOOF_LANE_CODE laneId @ field @ toLowerCase randomHex)) = field"
    by (simp add: length_laneCode len)
  show ?thesis
    unfolding parseSpoofTxHash_def Let_def raw code fld pi
    by (cases laneId) (simp_all add: SPOOF_LANE_CODE_def)
qed

lemma parseSpoofTxHash_build_int:
  assumes "0 \<le> i" "i < 2 ^ 48"
  shows "parseSpoofTxHash (''0x'' @ SPOOF_LANE_CODE laneId @
            sliceLast 12 (padStart 12 (CHR ''0'') (toString16 i)) @ randomHex)
         = Some \<lparr> lane = laneId, createdAtMs = i \<rparr>"
proof -
  from timestampHex_padded[OF assms] obtain k where
    ts: "sliceLast 12 (padStart 12 (CHR ''0'') (toString16 i))
           = replicate k (CHR ''0'') @ natToHex (nat i)"
    and k: "k + length (natToHex (nat i)) = 12"
    by blast
  define field where "field = replicate k (CHR ''0'') @ natToHex (nat i)"
  have len: "length field = 12" using k by (simp add: field_def)
  have hexset: "set field \<subseteq> set hexAlphabet"
    using natToHex_set[of "nat i"] by (auto simp: field_def hexAlphabet_def)
  have "hexValue 0 field = nat i"
    by (simp add: field_def hexValue_zeros hexValue_natToHex_acc)
  with assms(1) parseSpoofTxHash_field[OF len hexset, of laneId randomHex]
  show ?thesis unfolding ts field_def[symmetric] by simp
qed

lemma parseSpoofTxHash_buildSpoofTxHash:
  "0 \<le> \<lfloor>t\<rfloor> \<Longrightarrow> \<lfloor>t\<rfloor> < 2 ^ 48 \<Longrightarrow>
   parseSpoofTxHash (buildSpoofTxHash laneId t randomHex)
     = Some \<lparr> lane = laneId, createdAtMs = \<lfloor>t\<rfloor> \<rparr>"
  unfolding buildSpoofTxHash_def Let_def by (rule parseSpoofTxHash_build_int)

lemma timestampHex_overflow:
  "sliceLast 12 (padStart 12 (CHR ''0'') (toString16 281474976710656)) = ''000000000000''"
  by (simp add: sliceLast_def padStart_def toString16_def natToHex.simps hexDigitChar_def hexAlphabet_def)

text \<open>
  Claim C10 (round trip). For every lane and every creation time \<open>t\<close> with
  \<open>0 \<le> floor t < 2^48\<close>, parsing the spoof transaction hash built from the lane and \<open>t\<close>
  recovers exactly that lane and the timestamp \<open>floor t\<close>, whatever the random suffix is.
\<close>
theorem spoof_hash_roundtrip:
  "0 \<le> \<lfloor>t\<rfloor> \<Longrightarrow> \<lfloor>t\<rfloor> < 2 ^ 48 \<Longrightarrow>
   parseSpoofTxHash (buildSpoofTxHash laneId t randomHex)
     = Some \<lparr> lane = laneId, createdAtMs = \<lfloor>t\<rfloor> \<rparr>"
  unfolding buildSpoofTxHash_def Let_def by (rule parseSpoofTxHash_build_int)

theorem spoof_hash_roundtrip_witness:
  "(0::int) \<le> \<lfloor>3400000000001 / 2 :: real\<rfloor> \<and> \<lfloor>3400000000001 / 2 :: real\<rfloor> < 2 ^ 48 \<and>
   parseSpoofTxHash (buildSpoofTxHash Normal (3400000000001 / 2) ''00ff'')
     = Some \<lparr> lane = Normal, createdAtMs = 1700000000000 \<rparr>"
proof -
  have fl: "\<lfloor>3400000000001 / 2 :: real\<rfloor> = 1700000000000" by simp
  have h1: "(0::int) \<le> \<lfloor>3400000000001 / 2 :: real\<rfloor>" unfolding fl by simp
  have h2: "\<lfloor>3400000000001 / 2 :: real\<rfloor> < 2 ^ 48" unfolding fl by simp
  from spoof_hash_roundtrip[OF h1 h2, of Normal "''00ff''"] h1 h2 show ?thesis
    unfolding fl by simp
qed

text \<open>
  Claim C7. In spoof mode, a handle whose lane code (the two characters after \<open>0x\<close>, in lower
  case) is not the code of the lane passed to the check is reported unconfirmed, whatever
  the time of the check. This covers the handles of the other lane and the handles whose
  lane code is no lane at all.
\<close>
theorem spoof_lane_mismatch_unconfirmed:
  assumes "take 2 (toLowerCase (drop 2 hash)) \<noteq> SPOOF_LANE_CODE laneId"
  shows "checkLaneConfirmation True now rpc laneId hash
           = Inr \<lparr> confirmed = False, methodTag = NoMethod, blockNumber = None \<rparr>"
proof (cases "parseSpoofTxHash hash")
  case None
  then show ?thesis by (simp add: checkLaneConfirmation_def unconfirmed_def)
next
  case (Some spoofTx)
  then have "SPOOF_LANE_CODE (lane spoofTx) = take 2 (toLowerCase (drop 2 hash))"
    by (auto simp: parseSpoofTxHash_def Let_def SPOOF_LANE_CODE_def
             split: if_splits option.splits)
  with assms have "lane spoofTx \<noteq> laneId" by auto
  with Some show ?thesis by (simp add: checkLaneConfirmation_def unconfirmed_def)
qed

theorem spoof_lane_mismatch_unconfirmed_witness:
  "take 2 (toLowerCase (drop 2 ''0xF2018bcfe56800aa'')) \<noteq> SPOOF_LANE_CODE Flashblocks \<and>
   (\<forall>now rpc. checkLaneConfirmation True now rpc Flashblocks ''0xF2018bcfe56800aa''
      = Inr \<lparr> confirmed = False, methodTag = NoMethod, blockNumber = None \<rparr>)"
proof -
  have h: "take 2 (toLowerCase (drop 2 ''0xF2018bcfe56800aa'')) \<noteq> SPOOF_LANE_CODE Flashblocks"
    by (simp add: toLowerCase_def toLowerChar_def SPOOF_LANE_CODE_def)
  from spoof_lane_mismatch_unconfirmed[OF h] h show ?thesis by blast
qed

text \<open>
  Claim C1, amended. In spoof mode, for every lane and every handle built by that lane's
  send at a creation time \<open>t\<close> with \<open>0 \<le> t < 2^48\<close>, the check of that lane and handle at time
  \<open>now\<close> reports \<open>confirmed = true\<close> exactly when \<open>now - t\<close> has reached the lane's spoof delay,
  and \<open>confirmed = false\<close> before.
\<close>
theorem spoof_confirmation_after_delay:
  assumes "0 \<le> t" "t < 2 ^ 48"
  shows "\<exists>r c. fst (sendLaneTransaction True t randomHex walletProvider outcome laneId s) = Inr r
           \<and> checkLaneConfirmation True now rpc laneId (txHash r) = Inr c
           \<and> (confirmed c \<longleftrightarrow> SPOOF_CONFIRMATION_DELAY_MS_BY_LANE laneId \<le> now - t)"
proof -
  have fl: "\<lfloor>of_int t :: real\<rfloor> = t" by simp
  have "parseSpoofTxHash (buildSpoofTxHash laneId (of_int t) randomHex)
          = Some \<lparr> lane = laneId, createdAtMs = t \<rparr>"
    using parseSpoofTxHash_buildSpoofTxHash[of "of_int t" laneId randomHex] assms unfolding fl by simp
  then show ?thesis
    by (simp add: sendLaneTransaction_def checkLaneConfirmation_def unconfirmed_def not_less)
qed

text \<open>
  The normal lane, one millisecond before its delay of 2500 ms and exactly at it.
\<close>
theorem spoof_confirmation_after_delay_witness:
  "(0::int) \<le> 1700000000000 \<and> (1700000000000::int) < 2 ^ 48 \<and>
   (\<exists>r c. fst (sendLaneTransaction True 1700000000000 ''00'' (Inl JsPrimitive) (\<lambda>k. Inl JsPrimitive)
                  Normal \<lparr> attempts = 0, sendLog = [] \<rparr>) = Inr r
      \<and> checkLaneConfirmation True 1700000002499
            \<lparr> eth_getTransactionReceipt = (\<lambda>h. Inr None), eth_getBlockByNumber = (\<lambda>tag. Inr None),
              hexToNumber = (\<lambda>h. Inr 0) \<rparr> Normal (txHash r) = Inr c
      \<and> \<not> confirmed c) \<and>
   (\<exists>r c. fst (sendLaneTransaction True 1700000000000 ''00'' (Inl JsPrimitive) (\<lambda>k. Inl JsPrimitive)
                  Normal \<lparr> attempts = 0, sendLog = [] \<rparr>) = Inr r
      \<and> checkLaneConfirmation True 1700000002500
            \<lparr> eth_getTransactionReceipt = (\<lambda>h. Inr None), eth_getBlockByNumber = (\<lambda>tag. Inr None),
              hexToNumber = (\<lambda>h. Inr 0) \<rparr> Normal (txHash r) = Inr c
      \<and> confirmed c)"
proof -
  have h1: "(0::int) \<le> 1700000000000" by simp
  have h2: "(1700000000000::int) < 2 ^ 48" by simp
  have d: "SPOOF_CONFIRMATION_DELAY_MS_BY_LANE Normal = 2500"
    by (simp add: SPOOF_CONFIRMATION_DELAY_MS_BY_LANE_def)
  from spoof_confirmation_after_delay[OF h1 h2, of "''00''" "Inl JsPrimitive" "\<lambda>k. Inl JsPrimitive"
        Normal "\<lparr> attempts = 0, sendLog = [] \<rparr>" 1700000002499]
       spoof_confirmation_after_delay[OF h1 h2, of "''00''" "Inl JsPrimitive" "\<lambda>k. Inl JsPrimitive"
        Normal "\<lparr> attempts = 0, sendLog = [] \<rparr>" 1700000002500]
       h1 h2
  show ?thesis unfolding d by simp
qed

text \<open>
  Claim C1 as stated, without a bound on \<open>t\<close>, fails: only the last twelve hexadecimal
  digits of the creation time are kept, so a handle created at \<open>t = 2^48\<close> decodes to
  creation time \<open>0\<close> and is confirmed at \<open>now = t\<close>, although \<open>now - t = 0\<close> is below the delay.
\<close>
theorem spoof_confirmation_unbounded_time_counterexample:
  "(281474976710656::int) - 281474976710656 < SPOOF_CONFIRMATION_DELAY_MS_BY_LANE Flashblocks \<and>
   (\<forall>randomHex walletProvider outcome s rpc. \<exists>r c.
      fst (sendLaneTransaction True 281474976710656 randomHex walletProvider outcome Flashblocks s)
        = Inr r
      \<and> checkLaneConfirmation True 281474976710656 rpc Flashblocks (txHash r) = Inr c
      \<and> confirmed c)"
proof -
  have d0: "digitVal (CHR ''0'') = Some 0"
    by (simp add: digitVal_def toLowerChar_def hexAlphabet_def)
  have v: "hexValue 0 ''000000000000'' = 0"
    by (simp add: d0)
  have fieldOk: "length ''000000000000'' = 12" "set ''000000000000'' \<subseteq> set hexAlphabet"
    by (simp_all add: hexAlphabet_def)
  have p: "parseSpoofTxHash (buildSpoofTxHash Flashblocks 281474976710656 randomHex)
           = Some \<lparr> lane = Flashblocks, createdAtMs = 0 \<rparr>" for randomHex
  proof -
    have "buildSpoofTxHash Flashblocks 281474976710656 randomHex
            = ''0x'' @ SPOOF_LANE_CODE Flashblocks @ ''000000000000'' @ randomHex"
      unfolding buildSpoofTxHash_def Let_def by (simp only: floor_numeral timestampHex_overflow)
    then show ?thesis
      using parseSpoofTxHash_field[OF fieldOk, of Flashblocks randomHex] by (simp only: v) simp
  qed
  show ?thesis
    by (simp add: sendLaneTransaction_def checkLaneConfirmation_def p
                  SPOOF_CONFIRMATION_DELAY_MS_BY_LANE_def)
qed

section \<open>Live confirmation and sending\<close>

text \<open>
  Claim C3, amended. In live mode the flashblocks lane polls the receipt. Whenever the
  receipt query answers and the check returns a verdict, the verdict is \<open>confirmed = true\<close>
  exactly when the node returned a receipt. No receipt gives the unconfirmed verdict; a
  receipt with a null block number gives a confirmation with \<open>blockNumber = null\<close>; a receipt
  with a block number gives a confirmation carrying the decoded number.
\<close>
theorem live_receipt_poll_confirms_on_any_receipt:
  assumes "eth_getTransactionReceipt rpc hash = Inr receipt"
  shows "(\<forall>c. checkLaneConfirmation False now rpc Flashblocks hash = Inr c
              \<longrightarrow> (confirmed c \<longleftrightarrow> receipt \<noteq> None))
       \<and> (receipt = None \<longrightarrow>
            checkLaneConfirmation False now rpc Flashblocks hash
              = Inr \<lparr> confirmed = False, methodTag = NoMethod, blockNumber = None \<rparr>)
       \<and> (\<forall>r. receipt = Some r \<and> receiptBlockNumber r = None \<longrightarrow>
            checkLaneConfirmation False now rpc Flashblocks hash
              = Inr \<lparr> confirmed = True, methodTag = Receipt, blockNumber = None \<rparr>)
       \<and> (\<forall>r hx n. receipt = Some r \<and> receiptBlockNumber r = Some hx \<and> hexToNumber rpc hx = Inr n \<longrightarrow>
            checkLaneConfirmation False now rpc Flashblocks hash
              = Inr \<lparr> confirmed = True, methodTag = Receipt, blockNumber = Some n \<rparr>)"
  using assms
  by (auto simp: checkLaneConfirmation_def confirmedAt_def unconfirmed_def
           split: option.splits sum.splits)

theorem live_receipt_poll_confirms_on_any_receipt_witness:
  "checkLaneConfirmation False 0
      \<lparr> eth_getTransactionReceipt = (\<lambda>h. Inr (Some \<lparr> receiptBlockNumber = Some ''0x10'' \<rparr>)),
        eth_getBlockByNumber = (\<lambda>tag. Inr None),
        hexToNumber = (\<lambda>h. Inr 16) \<rparr> Flashblocks ''0xab''
     = Inr \<lparr> confirmed = True, methodTag = Receipt, blockNumber = Some 16 \<rparr>
   \<and> checkLaneConfirmation False 0
      \<lparr> eth_getTransactionReceipt = (\<lambda>h. Inr (Some \<lparr> receiptBlockNumber = None \<rparr>)),
        eth_getBlockByNumber = (\<lambda>tag. Inr None),
        hexToNumber = (\<lambda>h. Inr 16) \<rparr> Flashblocks ''0xab''
     = Inr \<lparr> confirmed = True, methodTag = Receipt, blockNumber = None \<rparr>
   \<and> checkLaneConfirmation False 0
      \<lparr> eth_getTransactionReceipt = (\<lambda>h. Inr None),
        eth_getBlockByNumber = (\<lambda>tag. Inr None),
        hexToNumber = (\<lambda>h. Inr 16) \<rparr> Flashblocks ''0xab''
     = Inr \<lparr> confirmed = False, methodTag = NoMethod, blockNumber = None \<rparr>"
proof -
  let ?full = "\<lparr> eth_getTransactionReceipt = (\<lambda>h. Inr (Some \<lparr> receiptBlockNumber = Some ''0x10'' \<rparr>)),
        eth_getBlockByNumber = (\<lambda>tag. Inr None),
        hexToNumber = (\<lambda>h. Inr (16::int)) \<rparr> :: Rpc"
  let ?early = "\<lparr> eth_getTransactionReceipt = (\<lambda>h. Inr (Some \<lparr> receiptBlockNumber = None \<rparr>)),
        eth_getBlockByNumber = (\<lambda>tag. Inr None),
        hexToNumber = (\<lambda>h. Inr (16::int)) \<rparr> :: Rpc"
  let ?none = "\<lparr> eth_getTransactionReceipt = (\<lambda>h. Inr None),
        eth_getBlockByNumber = (\<lambda>tag. Inr None),
        hexToNumber = (\<lambda>h. Inr (16::int)) \<rparr> :: Rpc"
  have h1: "eth_getTransactionReceipt ?full ''0xab'' = Inr (Some \<lparr> receiptBlockNumber = Some ''0x10'' \<rparr>)"
    by simp
  have h2: "eth_getTransactionReceipt ?early ''0xab'' = Inr (Some \<lparr> receiptBlockNumber = None \<rparr>)"
    by simp
  have h3: "eth_getTransactionReceipt ?none ''0xab'' = Inr None"
    by simp
  have a: "checkLaneConfirmation False 0 ?full Flashblocks ''0xab''
      = Inr \<lparr> confirmed = True, methodTag = Receipt, blockNumber = Some 16 \<rparr>"
    using live_receipt_poll_confirms_on_any_receipt[OF h1, of 0] by simp
  have b: "checkLaneConfirmation False 0 ?early Flashblocks ''0xab''
      = Inr \<lparr> confirmed = True, methodTag = Receipt, blockNumber = None \<rparr>"
    using live_receipt_poll_confirms_on_any_receipt[OF h2, of 0] by simp
  have c: "checkLaneConfirmation False 0 ?none Flashblocks ''0xab''
      = Inr \<lparr> confirmed = False, methodTag = NoMethod, blockNumber = None \<rparr>"
    using live_receipt_poll_confirms_on_any_receipt[OF h3, of 0] by simp
  from a b c show ?thesis by (intro conjI)
qed

text \<open>
  Claim C3 as stated fails: a receipt whose block number is null is reported as confirmed.
\<close>
theorem live_receipt_without_block_counterexample:
  "\<exists>r. eth_getTransactionReceipt
      \<lparr> eth_getTransactionReceipt = (\<lambda>h. Inr (Some \<lparr> receiptBlockNumber = None \<rparr>)),
        eth_getBlockByNumber = (\<lambda>tag. Inr None),
        hexToNumber = (\<lambda>h. Inr 0) \<rparr> ''0xab'' = Inr (Some r)
   \<and> receiptBlockNumber r = None
   \<and> checkLaneConfirmation False 0
      \<lparr> eth_getTransactionReceipt = (\<lambda>h. Inr (Some \<lparr> receiptBlockNumber = None \<rparr>)),
        eth_getBlockByNumber = (\<lambda>tag. Inr None),
        hexToNumber = (\<lambda>h. Inr 0) \<rparr> Flashblocks ''0xab''
     = Inr \<lparr> confirmed = True, methodTag = Receipt, blockNumber = None \<rparr>"
  by (simp add: checkLaneConfirmation_def confirmedAt_def)

lemma receipt_poll_first_revision:
  assumes "eth_getTransactionReceipt rpc hash = Inr receipt"
    and "checkLaneConfirmationLive1 tag rpc Normal hash = Inr c"
  shows "confirmed c \<longleftrightarrow> (\<exists>r hx. receipt = Some r \<and> receiptBlockNumber r = Some hx \<and> hx \<noteq> [])"
  using assms
  by (auto simp: checkLaneConfirmationLive1_def Let_def unconfirmed_def
           split: option.splits sum.splits if_splits)

text \<open>
  Claim C2. In live mode with a configured wallet, a send that succeeds at once is made
  once. A first failure that is a nonce synchronisation error is followed by exactly one
  reset of the nonce manager and exactly one more attempt, and the result of that attempt,
  success or error, is the result of the call. A first failure of any other class is
  returned at once, with no reset and no second attempt.
\<close>
theorem nonce_sync_single_retry:
  "(case sendLaneTransaction False now randomHex (Inr address) outcome laneId s of
      (res, s') \<Rightarrow>
        (case outcome (attempts s) of
           Inr h \<Rightarrow>
             res = Inr \<lparr> txHash = h, fromAddress = address \<rparr>
             \<and> sendLog s' = sendLog s @ [SendAttempt]
             \<and> attempts s' = attempts s + 1
         | Inl err \<Rightarrow>
             if isNonceSyncError err then
               sendLog s' = sendLog s @ [SendAttempt, NonceReset, SendAttempt]
               \<and> attempts s' = attempts s + 2
               \<and> res = (case outcome (attempts s + 1) of
                          Inl err2 \<Rightarrow> Inl err2
                        | Inr h \<Rightarrow> Inr \<lparr> txHash = h, fromAddress = address \<rparr>)
             else
               res = Inl err
               \<and> sendLog s' = sendLog s @ [SendAttempt]
               \<and> attempts s' = attempts s + 1))"
  by (simp add: sendLaneTransaction_def enqueueSendTransaction_def sendOperation_def
                sendTransaction_def nonceManagerReset_def
           split: sum.splits prod.splits)

text \<open>
  Two nonce errors in a row: two attempts, one reset between them, and the second error
  reaches the caller.
\<close>
theorem nonce_sync_single_retry_witness:
  "isNonceSyncError (JsError ''Error'' ''Nonce too low'')
   \<and> sendLaneTransaction False 0 [] (Inr ''0xA1'')
        (\<lambda>k. Inl (JsError ''Error'' ''Nonce too low'')) Normal \<lparr> attempts = 0, sendLog = [] \<rparr>
      = (Inl (JsError ''Error'' ''Nonce too low''),
         \<lparr> attempts = 2, sendLog = [SendAttempt, NonceReset, SendAttempt] \<rparr>)
   \<and> \<not> isNonceSyncError (JsError ''Error'' ''insufficient funds'')
   \<and> sendLaneTransaction False 0 [] (Inr ''0xA1'')
        (\<lambda>k. Inl (JsError ''Error'' ''insufficient funds'')) Normal \<lparr> attempts = 0, sendLog = [] \<rparr>
      = (Inl (JsError ''Error'' ''insufficient funds''),
         \<lparr> attempts = 1, sendLog = [SendAttempt] \<rparr>)"
proof -
  have n: "isNonceSyncError (JsError ''Error'' ''Nonce too low'')"
    by (simp add: isNonceSyncError_def toLowerCase_def toLowerChar_def)
  have m: "\<not> isNonceSyncError (JsError ''Error'' ''insufficient funds'')"
    by (simp add: isNonceSyncError_def toLowerCase_def toLowerChar_def)
  have a: "sendLaneTransaction False 0 [] (Inr ''0xA1'')
        (\<lambda>k. Inl (JsError ''Error'' ''Nonce too low'')) Normal \<lparr> attempts = 0, sendLog = [] \<rparr>
      = (Inl (JsError ''Error'' ''Nonce too low''),
         \<lparr> attempts = 2, sendLog = [SendAttempt, NonceReset, SendAttempt] \<rparr>)"
    using nonce_sync_single_retry[where now = 0 and randomHex = "[]" and address = "''0xA1''"
         and outcome = "\<lambda>k. Inl (JsError ''Error'' ''Nonce too low'')" and laneId = Normal
         and s = "\<lparr> attempts = 0, sendLog = [] \<rparr>"] n
    by (auto split: prod.splits)
  have b: "sendLaneTransaction False 0 [] (Inr ''0xA1'')
        (\<lambda>k. Inl (JsError ''Error'' ''insufficient funds'')) Normal \<lparr> attempts = 0, sendLog = [] \<rparr>
      = (Inl (JsError ''Error'' ''insufficient funds''),
         \<lparr> attempts = 1, sendLog = [SendAttempt] \<rparr>)"
    using nonce_sync_single_retry[where now = 0 and randomHex = "[]" and address = "''0xA1''"
         and outcome = "\<lambda>k. Inl (JsError ''Error'' ''insufficient funds'')" and laneId = Normal
         and s = "\<lparr> attempts = 0, sendLog = [] \<rparr>"] m
    by (auto split: prod.splits)
  from n m a b show ?thesis by blast
qed

section \<open>Duration validation\<close>

text \<open>
  Claim C8. \<open>parseDurationSeconds\<close> accepts a value exactly when it is a finite number
  between 1 and 60 inclusive, and returns it unchanged. The handler answers 400 for every
  other value of \<open>durationSeconds\<close> (and for a body that is not JSON) and opens the run's
  stream only for an accepted duration; a \<open>null\<close> body starts no run either.
\<close>
theorem duration_validation:
  "(parseDurationSeconds v \<noteq> None \<longleftrightarrow> (\<exists>x. v = JsNum (Finite x) \<and> 1 \<le> x \<and> x \<le> 60))
   \<and> (\<forall>d. parseDurationSeconds v = Some d \<longrightarrow> v = JsNum (Finite d))
   \<and> POST (Inr (BodyObject v))
       = (case parseDurationSeconds v of
            None \<Rightarrow> BadRequest ''durationSeconds must be a number between 1 and 60''
          | Some d \<Rightarrow> RunStream d)
   \<and> POST (Inr BodyOther) = BadRequest ''durationSeconds must be a number between 1 and 60''
   \<and> (\<forall>err. POST (Inl err) = BadRequest ''Invalid JSON body'')
   \<and> POST (Inr BodyNull) = Unhandled"
  by (auto simp: parseDurationSeconds_def POST_def MIN_DURATION_SECONDS_def MAX_DURATION_SECONDS_def
           split: JsValue.splits JsNumber.splits)

theorem duration_validation_witness:
  "parseDurationSeconds (JsNum (Finite 60)) = Some 60
   \<and> POST (Inr (BodyObject (JsNum (Finite 60)))) = RunStream 60
   \<and> parseDurationSeconds (JsNum (Finite (601 / 10))) = None
   \<and> POST (Inr (BodyObject (JsNum (Finite (601 / 10)))))
       = BadRequest ''durationSeconds must be a number between 1 and 60''
   \<and> POST (Inr (BodyObject (JsString ''5'')))
       = BadRequest ''durationSeconds must be a number between 1 and 60''
   \<and> POST (Inr (BodyObject (JsNum PosInfinity)))
       = BadRequest ''durationSeconds must be a number between 1 and 60''"
proof -
  have a: "parseDurationSeconds (JsNum (Finite 60)) = Some 60"
    using duration_validation[of "JsNum (Finite 60)"]
    by auto
  have b: "parseDurationSeconds (JsNum (Finite (601 / 10))) = None"
    using duration_validation[of "JsNum (Finite (601 / 10))"] by auto
  have c: "parseDurationSeconds (JsString ''5'') = None"
    using duration_validation[of "JsString ''5''"] by auto
  have d: "parseDurationSeconds (JsNum PosInfinity) = None"
    using duration_validation[of "JsNum PosInfinity"] by auto
  show ?thesis
    using duration_validation[of "JsNum (Finite 60)"]
          duration_validation[of "JsNum (Finite (601 / 10))"]
          duration_validation[of "JsString ''5''"]
          duration_validation[of "JsNum PosInfinity"]
    by (simp add: a b c d)
qed

section \<open>The lane loops under the run token\<close>

lemma updateLane_fields [simp]:
  "lanes (updateLane laneId f c) = (lanes c)(laneId := f (lanes c laneId))"
  "runTokenRef (updateLane laneId f c) = runTokenRef c"
  "runDeadlineRef (updateLane laneId f c) = runDeadlineRef c"
  "requests (updateLane laneId f c) = requests c"
  "animationTimersRef (updateLane laneId f c) = animationTimersRef c"
  "stopTimerRef (updateLane laneId f c) = stopTimerRef c"
  "isRunning (updateLane laneId f c) = isRunning c"
  "fatalErrorMessage (updateLane laneId f c) = fatalErrorMessage c"
  "inFlightRequestsRef (updateLane laneId f c) = inFlightRequestsRef c"
  by (simp_all add: updateLane_def)

lemma postJson_fields [simp]:
  "lanes (snd (postJson r c)) = lanes c"
  "runTokenRef (snd (postJson r c)) = runTokenRef c"
  "runDeadlineRef (snd (postJson r c)) = runDeadlineRef c"
  "requests (snd (postJson r c)) = requests c @ [r]"
  "animationTimersRef (snd (postJson r c)) = animationTimersRef c"
  "stopTimerRef (snd (postJson r c)) = stopTimerRef c"
  "isRunning (snd (postJson r c)) = isRunning c"
  "fatalErrorMessage (snd (postJson r c)) = fatalErrorMessage c"
  by (simp_all add: postJson_def Let_def)

lemma postJsonSettled_fields [simp]:
  "lanes (postJsonSettled k c) = lanes c"
  "runTokenRef (postJsonSettled k c) = runTokenRef c"
  "runDeadlineRef (postJsonSettled k c) = runDeadlineRef c"
  "requests (postJsonSettled k c) = requests c"
  "animationTimersRef (postJsonSettled k c) = animationTimersRef c"
  "stopTimerRef (postJsonSettled k c) = stopTimerRef c"
  "isRunning (postJsonSettled k c) = isRunning c"
  "fatalErrorMessage (postJsonSettled k c) = fatalErrorMessage c"
  by (simp_all add: postJsonSettled_def)

lemma stopRun_fields [simp]:
  "lanes (stopRun c) = (\<lambda>laneId. (lanes c laneId)\<lparr> status := Stopped \<rparr>)"
  "runTokenRef (stopRun c) = runTokenRef c + 1"
  "runDeadlineRef (stopRun c) = None"
  "requests (stopRun c) = requests c"
  "animationTimersRef (stopRun c) = []"
  "stopTimerRef (stopRun c) = False"
  "isRunning (stopRun c) = False"
  "fatalErrorMessage (stopRun c) = fatalErrorMessage c"
  "inFlightRequestsRef (stopRun c) = {}"
  "remainingMs (stopRun c) = 0"
  by (simp_all add: stopRun_def Let_def setStoppedStatuses_def abortInFlightRequests_def
        clearAnimationTimers_def)

lemma triggerLaneSendAnimation_fields [simp]:
  "lanes (triggerLaneSendAnimation laneId token pnow c) = lanes c"
  "runTokenRef (triggerLaneSendAnimation laneId token pnow c) = runTokenRef c"
  "runDeadlineRef (triggerLaneSendAnimation laneId token pnow c) = runDeadlineRef c"
  "requests (triggerLaneSendAnimation laneId token pnow c) = requests c"
  "animationTimersRef (triggerLaneSendAnimation laneId token pnow c)
     = animationTimersRef c @ [(laneId, token, max 0 (confirmAnimationUntilRef c laneId - pnow))]"
  "stopTimerRef (triggerLaneSendAnimation laneId token pnow c) = stopTimerRef c"
  "isRunning (triggerLaneSendAnimation laneId token pnow c) = isRunning c"
  "fatalErrorMessage (triggerLaneSendAnimation laneId token pnow c) = fatalErrorMessage c"
  by (simp_all add: triggerLaneSendAnimation_def scheduleLaneSendAnimation_def Let_def)

lemma isActiveRun_cong:
  "runTokenRef c' = runTokenRef c \<Longrightarrow> runDeadlineRef c' = runDeadlineRef c \<Longrightarrow>
   isActiveRun c' token now = isActiveRun c token now"
  by (simp add: isActiveRun_def)

lemma isActiveRun_token: "isActiveRun c token now \<Longrightarrow> runTokenRef c = token"
  by (simp add: isActiveRun_def)

lemma stale_token_inactive: "runTokenRef c \<noteq> token \<Longrightarrow> \<not> isActiveRun c token now"
  by (simp add: isActiveRun_def)

lemma sendCycle_inactive:
  "runTokenRef c \<noteq> token \<Longrightarrow> sendCycle laneId token dateNow pnow c = (c, Returned)"
  by (simp add: sendCycle_def stale_token_inactive)

lemma finishCycle_inactive:
  "runTokenRef c \<noteq> token \<Longrightarrow>
   finishCycle laneId token sendStartAt isConfirmed m dateNow pnow c = (c, Returned)"
  by (simp add: finishCycle_def sendCycle_inactive stale_token_inactive)

lemma pollCycle_inactive:
  "runTokenRef c \<noteq> token \<Longrightarrow>
   pollCycle laneId token sendStartAt hash isConfirmed m dateNow pnow c = (c, Returned)"
  by (simp add: pollCycle_def finishCycle_inactive stale_token_inactive)

lemma afterSend_inactive:
  "runTokenRef c \<noteq> token \<Longrightarrow>
   afterSend laneId token sendStartAt k outcome dateNow pnow c = (postJsonSettled k c, Returned)"
  by (simp add: afterSend_def Let_def stale_token_inactive split: settled.splits)

lemma afterConfirm_inactive:
  "runTokenRef c \<noteq> token \<Longrightarrow>
   afterConfirm laneId token sendStartAt hash k outcome dateNow pnow c
     = (postJsonSettled k c, Returned)"
  by (simp add: afterConfirm_def Let_def stale_token_inactive pollCycle_inactive
           split: settled.splits)

lemma resumeLoop_inactive:
  assumes "runTokenRef c \<noteq> token"
  shows "requests (fst (resumeLoop laneId token point wake dateNow pnow c)) = requests c
       \<and> lanes (fst (resumeLoop laneId token point wake dateNow pnow c)) = lanes c
       \<and> runTokenRef (fst (resumeLoop laneId token point wake dateNow pnow c)) = runTokenRef c
       \<and> animationTimersRef (fst (resumeLoop laneId token point wake dateNow pnow c))
           = animationTimersRef c
       \<and> stopTimerRef (fst (resumeLoop laneId token point wake dateNow pnow c)) = stopTimerRef c"
  using assms
  by (simp add: resumeLoop_def sendCycle_inactive pollCycle_inactive afterSend_inactive
                afterConfirm_inactive
           split: LoopPoint.splits Wake.splits)

lemma sendCycle_frame:
  "runTokenRef (fst (sendCycle laneId token now pnow c)) = runTokenRef c
   \<and> runDeadlineRef (fst (sendCycle laneId token now pnow c)) = runDeadlineRef c
   \<and> animationTimersRef (fst (sendCycle laneId token now pnow c)) = animationTimersRef c
   \<and> isRunning (fst (sendCycle laneId token now pnow c)) = isRunning c
   \<and> fatalErrorMessage (fst (sendCycle laneId token now pnow c)) = fatalErrorMessage c
   \<and> stopTimerRef (fst (sendCycle laneId token now pnow c)) = stopTimerRef c"
  by (simp add: sendCycle_def Let_def case_prod_beta)

lemma finishCycle_frame:
  "runTokenRef (fst (finishCycle laneId token st b m now pnow c)) = runTokenRef c
   \<and> runDeadlineRef (fst (finishCycle laneId token st b m now pnow c)) = runDeadlineRef c
   \<and> animationTimersRef (fst (finishCycle laneId token st b m now pnow c)) = animationTimersRef c
   \<and> isRunning (fst (finishCycle laneId token st b m now pnow c)) = isRunning c
   \<and> fatalErrorMessage (fst (finishCycle laneId token st b m now pnow c)) = fatalErrorMessage c
   \<and> stopTimerRef (fst (finishCycle laneId token st b m now pnow c)) = stopTimerRef c"
  by (simp add: finishCycle_def Let_def sendCycle_frame)

lemma pollCycle_frame:
  "runTokenRef (fst (pollCycle laneId token st h b m now pnow c)) = runTokenRef c
   \<and> runDeadlineRef (fst (pollCycle laneId token st h b m now pnow c)) = runDeadlineRef c
   \<and> animationTimersRef (fst (pollCycle laneId token st h b m now pnow c)) = animationTimersRef c
   \<and> isRunning (fst (pollCycle laneId token st h b m now pnow c)) = isRunning c
   \<and> fatalErrorMessage (fst (pollCycle laneId token st h b m now pnow c)) = fatalErrorMessage c
   \<and> stopTimerRef (fst (pollCycle laneId token st h b m now pnow c)) = stopTimerRef c"
  by (simp add: pollCycle_def Let_def case_prod_beta finishCycle_frame)

lemma afterConfirm_frame:
  "runTokenRef (fst (afterConfirm laneId token st h k outcome now pnow c)) = runTokenRef c
   \<and> runDeadlineRef (fst (afterConfirm laneId token st h k outcome now pnow c)) = runDeadlineRef c
   \<and> animationTimersRef (fst (afterConfirm laneId token st h k outcome now pnow c))
       = animationTimersRef c
   \<and> isRunning (fst (afterConfirm laneId token st h k outcome now pnow c)) = isRunning c
   \<and> fatalErrorMessage (fst (afterConfirm laneId token st h k outcome now pnow c))
       = fatalErrorMessage c
   \<and> stopTimerRef (fst (afterConfirm laneId token st h k outcome now pnow c)) = stopTimerRef c"
  by (simp add: afterConfirm_def Let_def pollCycle_frame split: settled.splits)

lemma afterSend_bounded:
  assumes "token \<le> runTokenRef c"
    and "\<forall>timer \<in> set (animationTimersRef c). fst (snd timer) \<le> runTokenRef c"
  shows "runTokenRef c \<le> runTokenRef (fst (afterSend laneId token st k outcome now pnow c))
       \<and> (\<forall>timer \<in> set (animationTimersRef (fst (afterSend laneId token st k outcome now pnow c))).
            fst (snd timer) \<le> runTokenRef (fst (afterSend laneId token st k outcome now pnow c)))"
  using assms
  by (auto simp: afterSend_def Let_def pollCycle_frame split: settled.splits)

lemma resumeLoop_bounded:
  assumes "token \<le> runTokenRef c"
    and "\<forall>timer \<in> set (animationTimersRef c). fst (snd timer) \<le> runTokenRef c"
  shows "runTokenRef c \<le> runTokenRef (fst (resumeLoop laneId token point wake now pnow c))
       \<and> (\<forall>timer \<in> set (animationTimersRef (fst (resumeLoop laneId token point wake now pnow c))).
            fst (snd timer) \<le> runTokenRef (fst (resumeLoop laneId token point wake now pnow c)))"
proof (cases point)
  case (AwaitSend st k)
  then show ?thesis using assms afterSend_bounded[OF assms]
    by (cases wake) (simp_all add: resumeLoop_def)
next
  case AwaitRetrySleep
  then show ?thesis using assms
    by (cases wake) (simp_all add: resumeLoop_def sendCycle_frame)
next
  case (AwaitConfirm st h k)
  then show ?thesis using assms
    by (cases wake) (simp_all add: resumeLoop_def afterConfirm_frame)
next
  case (AwaitPollSleep st h)
  then show ?thesis using assms
    by (cases wake) (simp_all add: resumeLoop_def pollCycle_frame)
next
  case Returned
  then show ?thesis using assms
    by (cases wake) (simp_all add: resumeLoop_def)
qed

lemma sendAnimationTimerFired_frame:
  "runTokenRef (sendAnimationTimerFired k now c) = runTokenRef c
   \<and> requests (sendAnimationTimerFired k now c) = requests c
   \<and> set (animationTimersRef (sendAnimationTimerFired k now c)) \<subseteq> set (animationTimersRef c)"
  by (auto simp: sendAnimationTimerFired_def Let_def split: prod.splits
           dest: in_set_takeD in_set_dropD)

lemma startRun_bounded: "tokensBounded sys \<Longrightarrow> tokensBounded (startRun now pnow sys)"
  by (auto simp: tokensBounded_def startRun_def Let_def case_prod_beta sendCycle_frame)

lemma step_bounded: "tokensBounded sys \<Longrightarrow> tokensBounded (step sys event)"
proof (cases event)
  case (StartClicked now pnow)
  assume "tokensBounded sys"
  with StartClicked show ?thesis by (simp add: step_def startRun_bounded)
next
  case StopClicked
  assume "tokensBounded sys"
  with StopClicked show ?thesis by (auto simp: step_def tokensBounded_def)
next
  case StopTimerFired
  assume "tokensBounded sys"
  with StopTimerFired show ?thesis by (auto simp: step_def tokensBounded_def)
next
  case (LoopResumed i wake now pnow)
  assume tb: "tokensBounded sys"
  show ?thesis
  proof (cases "i < length (loops sys)")
    case False
    with LoopResumed tb show ?thesis by (simp add: step_def)
  next
    case True
    obtain laneId token point where entry: "loops sys ! i = (laneId, token, point)"
      by (cases "loops sys ! i") auto
    from True entry have "(laneId, token, point) \<in> set (loops sys)"
      by (metis nth_mem)
    with tb have tok: "token \<le> runTokenRef (component sys)"
      by (auto simp: tokensBounded_def)
    from tb have tm: "\<forall>timer \<in> set (animationTimersRef (component sys)).
        fst (snd timer) \<le> runTokenRef (component sys)"
      by (simp add: tokensBounded_def)
    let ?r = "resumeLoop laneId token point wake now pnow (component sys)"
    from resumeLoop_bounded[OF tok tm, of laneId point wake now pnow]
    have grow: "runTokenRef (component sys) \<le> runTokenRef (fst ?r)"
      and tm': "\<forall>timer \<in> set (animationTimersRef (fst ?r)). fst (snd timer) \<le> runTokenRef (fst ?r)"
      by simp_all
    have step_eq: "step sys event
        = \<lparr> component = fst ?r, loops = (loops sys)[i := (laneId, token, snd ?r)] \<rparr>"
      using LoopResumed True entry by (simp add: step_def case_prod_beta)
    have "\<forall>entry \<in> set ((loops sys)[i := (laneId, token, snd ?r)]).
            fst (snd entry) \<le> runTokenRef (fst ?r)"
    proof
      fix e assume "e \<in> set ((loops sys)[i := (laneId, token, snd ?r)])"
      then have "e = (laneId, token, snd ?r) \<or> e \<in> set (loops sys)"
        by (auto dest: set_update_subset_insert[THEN subsetD])
      with tb tok grow show "fst (snd e) \<le> runTokenRef (fst ?r)"
        by (auto simp: tokensBounded_def)
    qed
    with tm' show ?thesis unfolding step_eq by (simp add: tokensBounded_def)
  qed
next
  case (AnimationTimerFired k now)
  assume "tokensBounded sys"
  with AnimationTimerFired sendAnimationTimerFired_frame[of k now "component sys"]
  show ?thesis by (auto simp: step_def tokensBounded_def)
qed

lemma initial_bounded: "tokensBounded initialSystem"
  by (simp add: tokensBounded_def initialSystem_def)

lemma reachable_bounded: "tokensBounded sys \<Longrightarrow> tokensBounded (foldl step sys events)"
  by (induction events arbitrary: sys) (simp_all add: step_bounded)

lemma stop_quiescent:
  "tokensBounded sys \<Longrightarrow> quiescent (sys\<lparr> component := stopRun (component sys) \<rparr>)"
  by (auto simp: tokensBounded_def quiescent_def less_Suc_eq_le)

lemma quiescent_step:
  assumes q: "quiescent sys" and ns: "\<not> isStart event"
  shows "quiescent (step sys event)
       \<and> requests (component (step sys event)) = requests (component sys)"
proof (cases event)
  case (StartClicked now pnow)
  with ns show ?thesis by (simp add: isStart_def)
next
  case StopClicked
  with q show ?thesis by (auto simp: step_def quiescent_def)
next
  case StopTimerFired
  with q show ?thesis by (auto simp: step_def quiescent_def)
next
  case (LoopResumed i wake now pnow)
  show ?thesis
  proof (cases "i < length (loops sys)")
    case False
    with LoopResumed q show ?thesis by (simp add: step_def)
  next
    case True
    obtain laneId token point where entry: "loops sys ! i = (laneId, token, point)"
      by (cases "loops sys ! i") auto
    from True entry have "(laneId, token, point) \<in> set (loops sys)"
      by (metis nth_mem)
    with q have tok: "token < runTokenRef (component sys)"
      by (auto simp: quiescent_def)
    then have inactive: "runTokenRef (component sys) \<noteq> token"
      by simp
    let ?r = "resumeLoop laneId token point wake now pnow (component sys)"
    note same = resumeLoop_inactive[OF inactive, of laneId point wake now pnow]
    have step_eq: "step sys event
        = \<lparr> component = fst ?r, loops = (loops sys)[i := (laneId, token, snd ?r)] \<rparr>"
      using LoopResumed True entry by (simp add: step_def case_prod_beta)
    have "\<forall>entry \<in> set ((loops sys)[i := (laneId, token, snd ?r)]).
            fst (snd entry) < runTokenRef (fst ?r)"
    proof
      fix e assume "e \<in> set ((loops sys)[i := (laneId, token, snd ?r)])"
      then have "e = (laneId, token, snd ?r) \<or> e \<in> set (loops sys)"
        by (auto dest: set_update_subset_insert[THEN subsetD])
      with q tok same show "fst (snd e) < runTokenRef (fst ?r)"
        by (auto simp: quiescent_def)
    qed
    with q same show ?thesis unfolding step_eq by (simp add: quiescent_def)
  qed
next
  case (AnimationTimerFired k now)
  show ?thesis
  proof (cases "k < length (animationTimersRef (component sys))")
    case False
    with AnimationTimerFired q show ?thesis
      by (simp add: step_def sendAnimationTimerFired_def)
  next
    case True
    obtain laneId token d where timer: "animationTimersRef (component sys) ! k = (laneId, token, d)"
      by (cases "animationTimersRef (component sys) ! k") auto
    from True timer have "(laneId, token, d) \<in> set (animationTimersRef (component sys))"
      by (metis nth_mem)
    with q have "token < runTokenRef (component sys)" by (auto simp: quiescent_def)
    then have "sendAnimationTimerFired k now (component sys)
        = (component sys)\<lparr> animationTimersRef :=
             take k (animationTimersRef (component sys))
               @ drop (Suc k) (animationTimersRef (component sys)) \<rparr>"
      using True timer by (simp add: sendAnimationTimerFired_def Let_def isActiveRun_def)
    with AnimationTimerFired q show ?thesis
      by (auto simp: step_def quiescent_def dest: in_set_takeD in_set_dropD)
  qed
qed

lemma quiescent_run:
  "quiescent sys \<Longrightarrow> \<forall>event \<in> set events. \<not> isStart event \<Longrightarrow>
   quiescent (foldl step sys events)
   \<and> requests (component (foldl step sys events)) = requests (component sys)"
proof (induction events arbitrary: sys)
  case Nil
  then show ?case by simp
next
  case (Cons e es)
  from Cons.prems have "\<not> isStart e" by simp
  from quiescent_step[OF Cons.prems(1) this]
  have q: "quiescent (step sys e)"
    and r: "requests (component (step sys e)) = requests (component sys)"
    by simp_all
  from Cons.IH[OF q] Cons.prems(2) r show ?case by simp
qed

lemma stop_without_restart:
  assumes "\<forall>event \<in> set later. \<not> isStart event"
  shows "requests (component (foldl step (step (foldl step initialSystem earlier) StopClicked) later))
           = requests (component (step (foldl step initialSystem earlier) StopClicked))
       \<and> (\<forall>laneId. status (lanes (component
              (foldl step (step (foldl step initialSystem earlier) StopClicked) later)) laneId)
            = Stopped)"
proof -
  have "tokensBounded (foldl step initialSystem earlier)"
    by (rule reachable_bounded[OF initial_bounded])
  then have "quiescent (step (foldl step initialSystem earlier) StopClicked)"
    by (simp add: step_def stop_quiescent)
  from quiescent_run[OF this assms] show ?thesis
    by (simp add: quiescent_def)
qed

lemma afterSend_token_mono:
  "runTokenRef c \<le> runTokenRef (fst (afterSend laneId token st k outcome dn pn c))"
  by (auto simp: afterSend_def Let_def pollCycle_frame split: settled.splits)

lemma resumeLoop_token_mono:
  "runTokenRef c \<le> runTokenRef (fst (resumeLoop laneId token point wake dn pn c))"
proof (cases point)
  case (AwaitSend st k)
  then show ?thesis by (cases wake) (simp_all add: resumeLoop_def afterSend_token_mono)
next
  case AwaitRetrySleep
  then show ?thesis by (cases wake) (simp_all add: resumeLoop_def sendCycle_frame)
next
  case (AwaitConfirm st h k)
  then show ?thesis by (cases wake) (simp_all add: resumeLoop_def afterConfirm_frame)
next
  case (AwaitPollSleep st h)
  then show ?thesis by (cases wake) (simp_all add: resumeLoop_def pollCycle_frame)
next
  case Returned
  then show ?thesis by (cases wake) (simp_all add: resumeLoop_def)
qed

lemma step_token_mono:
  "runTokenRef (component sys) \<le> runTokenRef (component (step sys event))"
proof (cases event)
  case (StartClicked dn pn)
  then show ?thesis
    by (simp add: step_def startRun_def Let_def case_prod_beta sendCycle_frame)
next
  case StopClicked
  then show ?thesis by (simp add: step_def)
next
  case StopTimerFired
  then show ?thesis by (simp add: step_def)
next
  case (LoopResumed i wake dn pn)
  then show ?thesis
    using resumeLoop_token_mono
    by (auto simp: step_def case_prod_beta split: prod.splits)
next
  case (AnimationTimerFired k now)
  then show ?thesis
    using sendAnimationTimerFired_frame[of k now "component sys"] by (simp add: step_def)
qed

lemma step_keeps_loops:
  assumes "i < length (loops sys)"
  shows "i < length (loops (step sys event))
       \<and> fst (loops (step sys event) ! i) = fst (loops sys ! i)
       \<and> fst (snd (loops (step sys event) ! i)) = fst (snd (loops sys ! i))"
proof (cases event)
  case (StartClicked dn pn)
  with assms show ?thesis
    by (simp add: step_def startRun_def Let_def case_prod_beta nth_append)
next
  case StopClicked
  with assms show ?thesis by (simp add: step_def)
next
  case StopTimerFired
  with assms show ?thesis by (simp add: step_def)
next
  case (LoopResumed j wake dn pn)
  with assms show ?thesis
    by (cases "j = i") (auto simp: step_def case_prod_beta split: prod.splits)
next
  case (AnimationTimerFired k now)
  with assms show ?thesis by (simp add: step_def)
qed

lemma stale_loops_run:
  assumes "i < length (loops sys)"
    and "fst (snd (loops sys ! i)) < runTokenRef (component sys)"
  shows "i < length (loops (foldl step sys events))
       \<and> fst (loops (foldl step sys events) ! i) = fst (loops sys ! i)
       \<and> fst (snd (loops (foldl step sys events) ! i)) = fst (snd (loops sys ! i))
       \<and> fst (snd (loops (foldl step sys events) ! i))
           < runTokenRef (component (foldl step sys events))"
  using assms
proof (induction events arbitrary: sys)
  case Nil
  then show ?case by simp
next
  case (Cons e es)
  from step_keeps_loops[OF Cons.prems(1), of e]
  have len: "i < length (loops (step sys e))"
    and ln: "fst (loops (step sys e) ! i) = fst (loops sys ! i)"
    and tk: "fst (snd (loops (step sys e) ! i)) = fst (snd (loops sys ! i))"
    by simp_all
  from tk Cons.prems(2) step_token_mono[of sys e]
  have stale: "fst (snd (loops (step sys e) ! i)) < runTokenRef (component (step sys e))"
    by simp
  from Cons.IH[OF len stale] ln tk show ?case by simp
qed

lemma stale_loop_is_inert:
  assumes "i < length (loops sys)"
    and "fst (snd (loops sys ! i)) < runTokenRef (component sys)"
  shows "requests (component (step sys (LoopResumed i wake dn pn))) = requests (component sys)
       \<and> lanes (component (step sys (LoopResumed i wake dn pn))) = lanes (component sys)"
proof -
  obtain laneId token point where entry: "loops sys ! i = (laneId, token, point)"
    by (cases "loops sys ! i") auto
  with assms(2) have "runTokenRef (component sys) \<noteq> token" by simp
  from resumeLoop_inactive[OF this, of laneId point wake dn pn] assms(1) entry
  show ?thesis by (simp add: step_def case_prod_beta)
qed

text \<open>
  Claim C5. Take any sequence of events from the initial state, then a click on Stop, then
  any further events whatsoever, a new click on Start included. The stop increments
  \<open>runTokenRef\<close> by one and leaves both lanes with the status \<open>stopped\<close>. Every lane loop
  that existed at the stop is still the same loop of the same lane afterwards, the token it
  holds is strictly below \<open>runTokenRef\<close> at every later moment, so \<open>isActiveRun\<close> is false
  for it at every clock reading, and resuming it with any result and any clock readings
  adds no send or confirm request to the log and changes the state of neither lane: this
  holds also after a restart, when the deadline is set again and only the token tells the
  loops of the stopped run from those of the new one. If moreover no Start is among the
  later events, the log of requests never grows after the stop and both lanes keep the
  status \<open>stopped\<close>.
\<close>
theorem stop_halts_both_lanes:
  "runTokenRef (component (step (foldl step initialSystem earlier) StopClicked))
     = runTokenRef (component (foldl step initialSystem earlier)) + 1
   \<and> (\<forall>laneId. status (lanes (component (step (foldl step initialSystem earlier) StopClicked))
          laneId) = Stopped)
   \<and> (\<forall>i wake dn pn now.
        i < length (loops (step (foldl step initialSystem earlier) StopClicked)) \<longrightarrow>
          i < length (loops (foldl step (step (foldl step initialSystem earlier) StopClicked) later))
        \<and> fst (loops (foldl step (step (foldl step initialSystem earlier) StopClicked) later) ! i)
            = fst (loops (step (foldl step initialSystem earlier) StopClicked) ! i)
        \<and> fst (snd (loops (foldl step (step (foldl step initialSystem earlier) StopClicked) later) ! i))
            = fst (snd (loops (step (foldl step initialSystem earlier) StopClicked) ! i))
        \<and> fst (snd (loops (step (foldl step initialSystem earlier) StopClicked) ! i))
            < runTokenRef (component
                (foldl step (step (foldl step initialSystem earlier) StopClicked) later))
        \<and> \<not> isActiveRun
              (component (foldl step (step (foldl step initialSystem earlier) StopClicked) later))
              (fst (snd (loops (step (foldl step initialSystem earlier) StopClicked) ! i))) now
        \<and> requests (component (step
              (foldl step (step (foldl step initialSystem earlier) StopClicked) later)
              (LoopResumed i wake dn pn)))
            = requests (component
                (foldl step (step (foldl step initialSystem earlier) StopClicked) later))
        \<and> lanes (component (step
              (foldl step (step (foldl step initialSystem earlier) StopClicked) later)
              (LoopResumed i wake dn pn)))
            = lanes (component
                (foldl step (step (foldl step initialSystem earlier) StopClicked) later)))
   \<and> ((\<forall>event \<in> set later. \<not> isStart event) \<longrightarrow>
        requests (component (foldl step (step (foldl step initialSystem earlier) StopClicked) later))
          = requests (component (step (foldl step initialSystem earlier) StopClicked))
        \<and> (\<forall>laneId. status (lanes (component
               (foldl step (step (foldl step initialSystem earlier) StopClicked) later)) laneId)
             = Stopped))"
proof -
  let ?before = "foldl step initialSystem earlier"
  let ?stopped = "step ?before StopClicked"
  let ?final = "foldl step ?stopped later"
  have bounded: "tokensBounded ?before"
    by (rule reachable_bounded[OF initial_bounded])
  have tok: "runTokenRef (component ?stopped) = runTokenRef (component ?before) + 1"
    by (simp add: step_def)
  have st: "\<forall>laneId. status (lanes (component ?stopped) laneId) = Stopped"
    by (simp add: step_def)
  have old: "i < length (loops ?stopped) \<longrightarrow>
          i < length (loops ?final)
        \<and> fst (loops ?final ! i) = fst (loops ?stopped ! i)
        \<and> fst (snd (loops ?final ! i)) = fst (snd (loops ?stopped ! i))
        \<and> fst (snd (loops ?stopped ! i)) < runTokenRef (component ?final)
        \<and> \<not> isActiveRun (component ?final) (fst (snd (loops ?stopped ! i))) now
        \<and> requests (component (step ?final (LoopResumed i wake dn pn)))
            = requests (component ?final)
        \<and> lanes (component (step ?final (LoopResumed i wake dn pn)))
            = lanes (component ?final)" for i wake dn pn now
  proof
    assume i: "i < length (loops ?stopped)"
    then have "loops ?stopped ! i \<in> set (loops ?before)"
      by (simp add: step_def)
    with bounded have "fst (snd (loops ?stopped ! i)) \<le> runTokenRef (component ?before)"
      by (simp add: tokensBounded_def)
    with tok have stale: "fst (snd (loops ?stopped ! i)) < runTokenRef (component ?stopped)"
      by simp
    from stale_loops_run[OF i stale, of later]
    have len: "i < length (loops ?final)"
      and same: "fst (loops ?final ! i) = fst (loops ?stopped ! i)"
        "fst (snd (loops ?final ! i)) = fst (snd (loops ?stopped ! i))"
      and stale': "fst (snd (loops ?final ! i)) < runTokenRef (component ?final)"
      by simp_all
    from stale' same have lt: "fst (snd (loops ?stopped ! i)) < runTokenRef (component ?final)"
      by simp
    then have inactive: "\<not> isActiveRun (component ?final) (fst (snd (loops ?stopped ! i))) now"
      by (simp add: isActiveRun_def)
    from stale_loop_is_inert[OF len stale', of wake dn pn] len same lt inactive
    show "i < length (loops ?final)
        \<and> fst (loops ?final ! i) = fst (loops ?stopped ! i)
        \<and> fst (snd (loops ?final ! i)) = fst (snd (loops ?stopped ! i))
        \<and> fst (snd (loops ?stopped ! i)) < runTokenRef (component ?final)
        \<and> \<not> isActiveRun (component ?final) (fst (snd (loops ?stopped ! i))) now
        \<and> requests (component (step ?final (LoopResumed i wake dn pn)))
            = requests (component ?final)
        \<and> lanes (component (step ?final (LoopResumed i wake dn pn)))
            = lanes (component ?final)"
      by blast
  qed
  have quiet: "(\<forall>event \<in> set later. \<not> isStart event) \<longrightarrow>
        requests (component ?final) = requests (component ?stopped)
        \<and> (\<forall>laneId. status (lanes (component ?final) laneId) = Stopped)"
    using stop_without_restart[of later earlier] by blast
  from tok st old quiet show ?thesis by blast
qed

text \<open>
  A run is started and stopped. In a first continuation both pending sends settle and the
  auto-stop timer event arrives: the only requests ever issued are the two sends of the
  start. In a second continuation the run is restarted, which issues the two sends of the new
  run under token 3; the pending send of the stopped run, holding token 1, then settles, and
  neither the log of requests nor the Flashblocks lane, which is \<open>sending\<close> for the new run,
  changes.
\<close>
theorem stop_halts_both_lanes_witness:
  "runTokenRef (component (foldl step initialSystem [StartClicked (\<lambda>i. 1000) (\<lambda>i. 5)])) = 1
   \<and> runTokenRef (component (step (foldl step initialSystem [StartClicked (\<lambda>i. 1000) (\<lambda>i. 5)]) StopClicked)) = 2
   \<and> (0::nat) < length (loops (step (foldl step initialSystem [StartClicked (\<lambda>i. 1000) (\<lambda>i. 5)]) StopClicked))
   \<and> fst (snd (loops (step (foldl step initialSystem [StartClicked (\<lambda>i. 1000) (\<lambda>i. 5)]) StopClicked) ! 0)) = 1
   \<and> requests (component (foldl step (step (foldl step initialSystem [StartClicked (\<lambda>i. 1000) (\<lambda>i. 5)]) StopClicked) 
      [LoopResumed 0 (SendSettled (Fulfilled \<lparr> txHash = ''0xf1'', fromAddress = ''0xF1'' \<rparr>)) (\<lambda>i. 1010) (\<lambda>i. 15),
       LoopResumed 1 (SendSettled (Rejected (JsError ''Error'' ''Request failed''))) (\<lambda>i. 1011) (\<lambda>i. 16),
       StopTimerFired])) = [SendRequest Flashblocks, SendRequest Normal]
   \<and> status (lanes (component (foldl step (step (foldl step initialSystem [StartClicked (\<lambda>i. 1000) (\<lambda>i. 5)]) StopClicked) 
      [LoopResumed 0 (SendSettled (Fulfilled \<lparr> txHash = ''0xf1'', fromAddress = ''0xF1'' \<rparr>)) (\<lambda>i. 1010) (\<lambda>i. 15),
       LoopResumed 1 (SendSettled (Rejected (JsError ''Error'' ''Request failed''))) (\<lambda>i. 1011) (\<lambda>i. 16),
       StopTimerFired])) Flashblocks) = Stopped
   \<and> status (lanes (component (foldl step (step (foldl step initialSystem [StartClicked (\<lambda>i. 1000) (\<lambda>i. 5)]) StopClicked) 
      [LoopResumed 0 (SendSettled (Fulfilled \<lparr> txHash = ''0xf1'', fromAddress = ''0xF1'' \<rparr>)) (\<lambda>i. 1010) (\<lambda>i. 15),
       LoopResumed 1 (SendSettled (Rejected (JsError ''Error'' ''Request failed''))) (\<lambda>i. 1011) (\<lambda>i. 16),
       StopTimerFired])) Normal) = Stopped
   \<and> isRunning (component (foldl step (step (foldl step initialSystem [StartClicked (\<lambda>i. 1000) (\<lambda>i. 5)]) StopClicked) [StartClicked (\<lambda>i. 2000) (\<lambda>i. 50)]))
   \<and> runTokenRef (component (foldl step (step (foldl step initialSystem [StartClicked (\<lambda>i. 1000) (\<lambda>i. 5)]) StopClicked) [StartClicked (\<lambda>i. 2000) (\<lambda>i. 50)])) = 3
   \<and> \<not> isActiveRun (component (foldl step (step (foldl step initialSystem [StartClicked (\<lambda>i. 1000) (\<lambda>i. 5)]) StopClicked) [StartClicked (\<lambda>i. 2000) (\<lambda>i. 50)])) 1 2010
   \<and> isActiveRun (component (foldl step (step (foldl step initialSystem [StartClicked (\<lambda>i. 1000) (\<lambda>i. 5)]) StopClicked) [StartClicked (\<lambda>i. 2000) (\<lambda>i. 50)])) 3 2010
   \<and> requests (component (step (foldl step (step (foldl step initialSystem [StartClicked (\<lambda>i. 1000) (\<lambda>i. 5)]) StopClicked) [StartClicked (\<lambda>i. 2000) (\<lambda>i. 50)]) 
        (LoopResumed 0 (SendSettled (Fulfilled \<lparr> txHash = ''0xf1'', fromAddress = ''0xF1'' \<rparr>)) (\<lambda>i. 2010) (\<lambda>i. 60))))
       = [SendRequest Flashblocks, SendRequest Normal, SendRequest Flashblocks, SendRequest Normal]
   \<and> status (lanes (component (step (foldl step (step (foldl step initialSystem [StartClicked (\<lambda>i. 1000) (\<lambda>i. 5)]) StopClicked) [StartClicked (\<lambda>i. 2000) (\<lambda>i. 50)]) 
        (LoopResumed 0 (SendSettled (Fulfilled \<lparr> txHash = ''0xf1'', fromAddress = ''0xF1'' \<rparr>)) (\<lambda>i. 2010) (\<lambda>i. 60)))) Flashblocks) = Sending"
proof -
  let ?earlier = "[StartClicked (\<lambda>i. 1000) (\<lambda>i. 5)]"
  let ?later = "[LoopResumed 0 (SendSettled (Fulfilled \<lparr> txHash = ''0xf1'', fromAddress = ''0xF1'' \<rparr>)) (\<lambda>i. 1010) (\<lambda>i. 15),
       LoopResumed 1 (SendSettled (Rejected (JsError ''Error'' ''Request failed''))) (\<lambda>i. 1011) (\<lambda>i. 16),
       StopTimerFired]"
  let ?restart = "[StartClicked (\<lambda>i. 2000) (\<lambda>i. 50)]"
  let ?wake = "LoopResumed 0 (SendSettled (Fulfilled \<lparr> txHash = ''0xf1'', fromAddress = ''0xF1'' \<rparr>)) (\<lambda>i. 2010) (\<lambda>i. 60)"
  have ns: "\<forall>event \<in> set ?later. \<not> isStart event"
    by (simp add: isStart_def)
  have st: "foldl step initialSystem ?earlier = startRun (\<lambda>i. 1000) (\<lambda>i. 5) initialSystem"
    by (simp add: step_def)
  have tok0: "runTokenRef (component (foldl step initialSystem ?earlier)) = 1"
    by (simp add: step_def initialSystem_def startRun_def sendCycle_def isActiveRun_def
          MAX_RUNTIME_MS_def Let_def case_prod_beta laterReads_def sendCycle_frame)
  have len: "(0::nat) < length (loops (step (foldl step initialSystem ?earlier) StopClicked))"
    by (simp add: step_def initialSystem_def startRun_def sendCycle_def isActiveRun_def
          MAX_RUNTIME_MS_def Let_def case_prod_beta laterReads_def)
  have r0: "requests (component (step (foldl step initialSystem ?earlier) StopClicked))
              = [SendRequest Flashblocks, SendRequest Normal]"
    by (simp add: step_def initialSystem_def startRun_def sendCycle_def isActiveRun_def
          MAX_RUNTIME_MS_def Let_def case_prod_beta laterReads_def)
  have restarted: "foldl step (step (foldl step initialSystem ?earlier) StopClicked) ?restart
      = startRun (\<lambda>i. 2000) (\<lambda>i. 50) (step (foldl step initialSystem ?earlier) StopClicked)"
    by (simp add: step_def)
  have idle: "\<not> isRunning (component (step (foldl step initialSystem ?earlier) StopClicked))"
    by (simp add: step_def)
  have rq: "requests (component (foldl step (step (foldl step initialSystem ?earlier) StopClicked) ?restart))
      = [SendRequest Flashblocks, SendRequest Normal, SendRequest Flashblocks, SendRequest Normal]"
    by (simp add: step_def initialSystem_def startRun_def sendCycle_def isActiveRun_def
          MAX_RUNTIME_MS_def Let_def case_prod_beta laterReads_def)
  have rs: "status (lanes (component (foldl step (step (foldl step initialSystem ?earlier) StopClicked) ?restart))
      Flashblocks) = Sending"
    by (simp add: step_def initialSystem_def startRun_def sendCycle_def isActiveRun_def
          MAX_RUNTIME_MS_def Let_def case_prod_beta laterReads_def)
  have r1: "isRunning (component (foldl step (step (foldl step initialSystem ?earlier) StopClicked) ?restart))"
    by (simp add: step_def initialSystem_def startRun_def sendCycle_def isActiveRun_def
          MAX_RUNTIME_MS_def Let_def case_prod_beta laterReads_def)
  have r4: "isActiveRun (component (foldl step (step (foldl step initialSystem ?earlier) StopClicked) ?restart)) 3 2010"
    by (simp add: step_def initialSystem_def startRun_def sendCycle_def isActiveRun_def
          MAX_RUNTIME_MS_def Let_def case_prod_beta laterReads_def)
  note quiet = stop_halts_both_lanes[where earlier = "?earlier" and later = "?later"]
  note again = stop_halts_both_lanes[where earlier = "?earlier" and later = "?restart"]
  from quiet tok0 have tok1: "runTokenRef (component (step (foldl step initialSystem ?earlier) StopClicked)) = 2"
    by simp
  from quiet ns r0
  have q1: "requests (component (foldl step (step (foldl step initialSystem ?earlier) StopClicked) ?later))
      = [SendRequest Flashblocks, SendRequest Normal]"
    by simp
  from quiet ns
  have q2: "\<forall>laneId. status (lanes (component
      (foldl step (step (foldl step initialSystem ?earlier) StopClicked) ?later)) laneId) = Stopped"
    by blast
  have old: "fst (snd (loops (step (foldl step initialSystem ?earlier) StopClicked) ! 0)) = 1"
    by (simp add: step_def initialSystem_def startRun_def sendCycle_def isActiveRun_def
          MAX_RUNTIME_MS_def Let_def case_prod_beta laterReads_def)
  from again len
  have stale: "fst (snd (loops (step (foldl step initialSystem ?earlier) StopClicked) ! 0))
      < runTokenRef (component (foldl step (step (foldl step initialSystem ?earlier) StopClicked) ?restart))"
    by blast
  have r2: "runTokenRef (component (foldl step (step (foldl step initialSystem ?earlier) StopClicked) ?restart)) = 3"
    by (simp add: step_def initialSystem_def startRun_def sendCycle_def isActiveRun_def
          MAX_RUNTIME_MS_def Let_def case_prod_beta laterReads_def sendCycle_frame)
  from again len old
  have r3: "\<not> isActiveRun (component (foldl step (step (foldl step initialSystem ?earlier) StopClicked) ?restart)) 1 2010"
    by metis
  from again len
  have same: "requests (component (step (foldl step (step (foldl step initialSystem ?earlier) StopClicked) ?restart) ?wake))
        = requests (component (foldl step (step (foldl step initialSystem ?earlier) StopClicked) ?restart))
      \<and> lanes (component (step (foldl step (step (foldl step initialSystem ?earlier) StopClicked) ?restart) ?wake))
        = lanes (component (foldl step (step (foldl step initialSystem ?earlier) StopClicked) ?restart))"
    by blast
  from same rq
  have r5: "requests (component (step (foldl step (step (foldl step initialSystem ?earlier) StopClicked) ?restart) ?wake))
      = [SendRequest Flashblocks, SendRequest Normal, SendRequest Flashblocks, SendRequest Normal]"
    by simp
  from same rs
  have r6: "status (lanes (component (step (foldl step (step (foldl step initialSystem ?earlier) StopClicked) ?restart) ?wake))
      Flashblocks) = Sending"
    by simp
  from tok0 tok1 len old q1 q2 r1 r2 r3 r4 r5 r6 show ?thesis
    by (intro conjI) blast+
qed

text \<open>
  Claim C6. When the send of an active run fails with an error that is not an abort and
  whose message is classified as insufficient funds, the lane's updater records the message
  as \<open>lastError\<close> with the status \<open>error\<close>, the fatal message is set, and \<open>stopRun\<close> runs on
  that state: the token is invalidated, the deadline cleared, the run marked not running and
  both lanes forced to \<open>stopped\<close>, with \<open>lastError\<close> kept; the loop returns. Any other failure
  of such a send leaves the lane in \<open>error\<close> with \<open>lastError\<close> set, waiting to retry. No other
  resumption of a lane loop changes the token, the deadline, the running flag or the fatal
  message.
\<close>
theorem insufficient_funds_is_the_only_fatal_failure:
  "(isActiveRun c token (dateNow 0) \<and> \<not> isAbortError err
      \<and> isInsufficientFundsError (asErrorMessage err) \<longrightarrow>
      afterSend laneId token sendStartAt k (Rejected err) dateNow pnow c
        = (stopRun ((updateLane laneId
                       (\<lambda>current. current\<lparr> status := Error, lastError := Some (asErrorMessage err) \<rparr>)
                       (postJsonSettled k c))
                    \<lparr> fatalErrorMessage :=
                        Some (''Demo wallet is out of gas funds ('' @ laneName laneId @
                              '' lane send failed). Fund the wallet and try again.'') \<rparr>),
           Returned)
      \<and> lastError (lanes (fst (afterSend laneId token sendStartAt k (Rejected err) dateNow pnow c)) laneId)
          = Some (asErrorMessage err)
      \<and> (\<forall>l. status (lanes (fst (afterSend laneId token sendStartAt k (Rejected err) dateNow pnow c)) l)
            = Stopped)
      \<and> fatalErrorMessage (fst (afterSend laneId token sendStartAt k (Rejected err) dateNow pnow c))
          = Some (''Demo wallet is out of gas funds ('' @ laneName laneId @
                  '' lane send failed). Fund the wallet and try again.'')
      \<and> runTokenRef (fst (afterSend laneId token sendStartAt k (Rejected err) dateNow pnow c))
          = runTokenRef c + 1
      \<and> runDeadlineRef (fst (afterSend laneId token sendStartAt k (Rejected err) dateNow pnow c)) = None
      \<and> \<not> isRunning (fst (afterSend laneId token sendStartAt k (Rejected err) dateNow pnow c)))
   \<and> (isActiveRun c token (dateNow 0) \<and> \<not> isAbortError err
      \<and> \<not> isInsufficientFundsError (asErrorMessage err) \<longrightarrow>
      afterSend laneId token sendStartAt k (Rejected err) dateNow pnow c
        = (updateLane laneId
             (\<lambda>current. current\<lparr> status := Error, lastError := Some (asErrorMessage err) \<rparr>)
             (postJsonSettled k c),
           AwaitRetrySleep))
   \<and> (runTokenRef (fst (resumeLoop laneId token point wake dateNow pnow c)) \<noteq> runTokenRef c
        \<or> isRunning (fst (resumeLoop laneId token point wake dateNow pnow c)) \<noteq> isRunning c
        \<or> runDeadlineRef (fst (resumeLoop laneId token point wake dateNow pnow c)) \<noteq> runDeadlineRef c
        \<or> fatalErrorMessage (fst (resumeLoop laneId token point wake dateNow pnow c))
             \<noteq> fatalErrorMessage c
      \<longrightarrow> (\<exists>st ctl e. point = AwaitSend st ctl \<and> wake = SendSettled (Rejected e)
             \<and> isActiveRun c token (dateNow 0) \<and> \<not> isAbortError e
             \<and> isInsufficientFundsError (asErrorMessage e)))"
proof (intro conjI impI)
  assume a: "isActiveRun c token (dateNow 0) \<and> \<not> isAbortError err
      \<and> isInsufficientFundsError (asErrorMessage err)"
  then have act: "isActiveRun (postJsonSettled k c) token (dateNow 0)"
    by (simp add: isActiveRun_def)
  with a show eq: "afterSend laneId token sendStartAt k (Rejected err) dateNow pnow c
        = (stopRun ((updateLane laneId
                       (\<lambda>current. current\<lparr> status := Error, lastError := Some (asErrorMessage err) \<rparr>)
                       (postJsonSettled k c))
                    \<lparr> fatalErrorMessage :=
                        Some (''Demo wallet is out of gas funds ('' @ laneName laneId @
                              '' lane send failed). Fund the wallet and try again.'') \<rparr>),
           Returned)"
    by (simp add: afterSend_def Let_def)
  show "lastError (lanes (fst (afterSend laneId token sendStartAt k (Rejected err) dateNow pnow c)) laneId)
          = Some (asErrorMessage err)"
    unfolding eq by simp
  show "\<forall>l. status (lanes (fst (afterSend laneId token sendStartAt k (Rejected err) dateNow pnow c)) l)
            = Stopped"
    unfolding eq by simp
  show "fatalErrorMessage (fst (afterSend laneId token sendStartAt k (Rejected err) dateNow pnow c))
          = Some (''Demo wallet is out of gas funds ('' @ laneName laneId @
                  '' lane send failed). Fund the wallet and try again.'')"
    unfolding eq by simp
  show "runTokenRef (fst (afterSend laneId token sendStartAt k (Rejected err) dateNow pnow c))
          = runTokenRef c + 1"
    unfolding eq by simp
  show "runDeadlineRef (fst (afterSend laneId token sendStartAt k (Rejected err) dateNow pnow c)) = None"
    unfolding eq by simp
  show "\<not> isRunning (fst (afterSend laneId token sendStartAt k (Rejected err) dateNow pnow c))"
    unfolding eq by simp
next
  assume a: "isActiveRun c token (dateNow 0) \<and> \<not> isAbortError err
      \<and> \<not> isInsufficientFundsError (asErrorMessage err)"
  then have "isActiveRun (postJsonSettled k c) token (dateNow 0)"
    by (simp add: isActiveRun_def)
  with a show "afterSend laneId token sendStartAt k (Rejected err) dateNow pnow c
        = (updateLane laneId
             (\<lambda>current. current\<lparr> status := Error, lastError := Some (asErrorMessage err) \<rparr>)
             (postJsonSettled k c),
           AwaitRetrySleep)"
    by (simp add: afterSend_def Let_def)
next
  let ?c' = "fst (resumeLoop laneId token point wake dateNow pnow c)"
  assume changed: "runTokenRef ?c' \<noteq> runTokenRef c \<or> isRunning ?c' \<noteq> isRunning c
        \<or> runDeadlineRef ?c' \<noteq> runDeadlineRef c \<or> fatalErrorMessage ?c' \<noteq> fatalErrorMessage c"
  show "\<exists>st ctl e. point = AwaitSend st ctl \<and> wake = SendSettled (Rejected e)
             \<and> isActiveRun c token (dateNow 0) \<and> \<not> isAbortError e
             \<and> isInsufficientFundsError (asErrorMessage e)"
  proof (rule ccontr)
    assume no: "\<not> ?thesis"
    have act: "isActiveRun (postJsonSettled k' c) token t = isActiveRun c token t" for k' t
      by (simp add: isActiveRun_def)
    have "runTokenRef ?c' = runTokenRef c \<and> isRunning ?c' = isRunning c
        \<and> runDeadlineRef ?c' = runDeadlineRef c \<and> fatalErrorMessage ?c' = fatalErrorMessage c"
    proof (cases point)
      case (AwaitSend st ctl)
      show ?thesis
      proof (cases wake)
        case (SendSettled outcome)
        show ?thesis
        proof (cases outcome)
          case (Fulfilled r)
          with AwaitSend SendSettled show ?thesis
            by (simp add: resumeLoop_def afterSend_def Let_def pollCycle_frame)
        next
          case (Rejected e)
          with no AwaitSend SendSettled
          have "\<not> (isActiveRun c token (dateNow 0) \<and> \<not> isAbortError e
                   \<and> isInsufficientFundsError (asErrorMessage e))"
            by blast
          with AwaitSend SendSettled Rejected show ?thesis
            by (auto simp: resumeLoop_def afterSend_def Let_def act)
        qed
      qed (simp_all add: resumeLoop_def AwaitSend)
    next
      case AwaitRetrySleep
      then show ?thesis by (cases wake) (simp_all add: resumeLoop_def sendCycle_frame)
    next
      case (AwaitConfirm st h ctl)
      then show ?thesis by (cases wake) (simp_all add: resumeLoop_def afterConfirm_frame)
    next
      case (AwaitPollSleep st h)
      then show ?thesis by (cases wake) (simp_all add: resumeLoop_def pollCycle_frame)
    next
      case Returned
      then show ?thesis by (cases wake) (simp_all add: resumeLoop_def)
    qed
    with changed show False by blast
  qed
qed

text \<open>
  The first send of a freshly started run fails with the node's insufficient-funds message.
\<close>
theorem insufficient_funds_is_the_only_fatal_failure_witness:
  "isActiveRun (component (step initialSystem (StartClicked (\<lambda>i. 1000) (\<lambda>i. 5)))) 1 1010
   \<and> \<not> isAbortError (JsError ''Error'' ''insufficient funds for gas * price + value'')
   \<and> isInsufficientFundsError
        (asErrorMessage (JsError ''Error'' ''insufficient funds for gas * price + value''))
   \<and> snd (afterSend Flashblocks 1 5 0
        (Rejected (JsError ''Error'' ''insufficient funds for gas * price + value''))
        (\<lambda>i. 1010) (\<lambda>i. 15)
        (component (step initialSystem (StartClicked (\<lambda>i. 1000) (\<lambda>i. 5))))) = Returned
   \<and> (\<forall>l. status (lanes (fst (afterSend Flashblocks 1 5 0
        (Rejected (JsError ''Error'' ''insufficient funds for gas * price + value''))
        (\<lambda>i. 1010) (\<lambda>i. 15)
        (component (step initialSystem (StartClicked (\<lambda>i. 1000) (\<lambda>i. 5)))))) l) = Stopped)
   \<and> lastError (lanes (fst (afterSend Flashblocks 1 5 0
        (Rejected (JsError ''Error'' ''insufficient funds for gas * price + value''))
        (\<lambda>i. 1010) (\<lambda>i. 15)
        (component (step initialSystem (StartClicked (\<lambda>i. 1000) (\<lambda>i. 5)))))) Flashblocks)
       = Some ''insufficient funds for gas * price + value''
   \<and> runTokenRef (fst (afterSend Flashblocks 1 5 0
        (Rejected (JsError ''Error'' ''insufficient funds for gas * price + value''))
        (\<lambda>i. 1010) (\<lambda>i. 15)
        (component (step initialSystem (StartClicked (\<lambda>i. 1000) (\<lambda>i. 5)))))) = 2
   \<and> \<not> isInsufficientFundsError (asErrorMessage (JsError ''Error'' ''Request failed''))
   \<and> snd (afterSend Flashblocks 1 5 0 (Rejected (JsError ''Error'' ''Request failed''))
        (\<lambda>i. 1010) (\<lambda>i. 15)
        (component (step initialSystem (StartClicked (\<lambda>i. 1000) (\<lambda>i. 5))))) = AwaitRetrySleep
   \<and> runTokenRef (fst (afterSend Flashblocks 1 5 0 (Rejected (JsError ''Error'' ''Request failed''))
        (\<lambda>i. 1010) (\<lambda>i. 15)
        (component (step initialSystem (StartClicked (\<lambda>i. 1000) (\<lambda>i. 5)))))) = 1"
proof -
  let ?c = "component (step initialSystem (StartClicked (\<lambda>i. 1000) (\<lambda>i. 5)))"
  let ?e = "JsError ''Error'' ''insufficient funds for gas * price + value''"
  let ?f = "JsError ''Error'' ''Request failed''"
  have tok: "runTokenRef ?c = 1" and dl: "runDeadlineRef ?c = Some 9000"
    by (simp_all add: step_def initialSystem_def startRun_def sendCycle_frame
          MAX_RUNTIME_MS_def Let_def case_prod_beta laterReads_def)
  have h1: "isActiveRun ?c 1 1010"
    by (simp add: isActiveRun_def tok dl)
  have h2: "\<not> isAbortError ?e" "\<not> isAbortError ?f"
    by (simp_all add: isAbortError_def)
  have msg: "asErrorMessage ?e = ''insufficient funds for gas * price + value''"
    "asErrorMessage ?f = ''Request failed''"
    by (simp_all add: asErrorMessage_def)
  have h3: "isInsufficientFundsError (asErrorMessage ?e)"
    unfolding msg by (simp add: isInsufficientFundsError_def toLowerCase_def toLowerChar_def)
  have h4: "\<not> isInsufficientFundsError (asErrorMessage ?f)"
    unfolding msg by (simp add: isInsufficientFundsError_def toLowerCase_def toLowerChar_def)
  note fatal = insufficient_funds_is_the_only_fatal_failure
         [where c = ?c and token = 1 and dateNow = "\<lambda>i. 1010" and err = ?e and laneId = Flashblocks
            and sendStartAt = 5 and k = 0 and pnow = "\<lambda>i. 15"]
  note retry = insufficient_funds_is_the_only_fatal_failure
         [where c = ?c and token = 1 and dateNow = "\<lambda>i. 1010" and err = ?f and laneId = Flashblocks
            and sendStartAt = 5 and k = 0 and pnow = "\<lambda>i. 15"]
  have a: "snd (afterSend Flashblocks 1 5 0 (Rejected ?e) (\<lambda>i. 1010) (\<lambda>i. 15) ?c) = Returned"
      "\<forall>l. status (lanes (fst (afterSend Flashblocks 1 5 0 (Rejected ?e) (\<lambda>i. 1010) (\<lambda>i. 15) ?c)) l)
         = Stopped"
      "lastError (lanes (fst (afterSend Flashblocks 1 5 0 (Rejected ?e) (\<lambda>i. 1010) (\<lambda>i. 15) ?c))
         Flashblocks) = Some ''insufficient funds for gas * price + value''"
      "runTokenRef (fst (afterSend Flashblocks 1 5 0 (Rejected ?e) (\<lambda>i. 1010) (\<lambda>i. 15) ?c)) = 2"
    using fatal h1 h2 h3 by (simp_all add: tok msg)
  have b: "snd (afterSend Flashblocks 1 5 0 (Rejected ?f) (\<lambda>i. 1010) (\<lambda>i. 15) ?c) = AwaitRetrySleep"
      "runTokenRef (fst (afterSend Flashblocks 1 5 0 (Rejected ?f) (\<lambda>i. 1010) (\<lambda>i. 15) ?c)) = 1"
    using retry h1 h2 h4 by (simp_all add: tok msg)
  from h1 h2 h3 h4 a b show ?thesis by (intro conjI)
qed

section \<open>Latency metrics\<close>

lemma laneMetrics_recordConfirmation:
  "laneMetrics (recordConfirmation l m cur)
     = (confirmationsObserved cur + 1,
        Some (((case averageLatencyMs cur of None \<Rightarrow> 0 | Some avg \<Rightarrow> avg)
                 * real (confirmationsObserved cur) + l)
              / real (confirmationsObserved cur + 1)),
        Some l)"
  by (simp add: laneMetrics_def recordConfirmation_def Let_def)

lemma sendCycle_metrics:
  "laneMetrics (lanes (fst (sendCycle laneId token dn pn c)) l) = laneMetrics (lanes c l)"
  by (simp add: sendCycle_def Let_def case_prod_beta laneMetrics_def)

lemma finishCycle_metrics:
  "laneMetrics (lanes (fst (finishCycle laneId token st b m dn pn c)) l) = laneMetrics (lanes c l)
   \<or> (\<exists>lat mt. laneMetrics (lanes (fst (finishCycle laneId token st b m dn pn c)) l)
                 = laneMetrics (recordConfirmation lat mt (lanes c l)))"
proof (cases "\<not> b \<or> \<not> isActiveRun c token (dn 0)")
  case True
  then show ?thesis by (simp add: finishCycle_def sendCycle_metrics)
next
  case active: False
  show ?thesis
  proof (cases "l = laneId")
    case True
    with active show ?thesis
      by (intro disjI2 exI[of _ "pn 0 - st"] exI[of _ m])
         (simp add: finishCycle_def Let_def sendCycle_metrics)
  next
    case False
    with active show ?thesis
      by (intro disjI1) (simp add: finishCycle_def Let_def sendCycle_metrics)
  qed
qed

lemma pollCycle_metrics:
  "laneMetrics (lanes (fst (pollCycle laneId token st h b m dn pn c)) l) = laneMetrics (lanes c l)
   \<or> (\<exists>lat mt. laneMetrics (lanes (fst (pollCycle laneId token st h b m dn pn c)) l)
                 = laneMetrics (recordConfirmation lat mt (lanes c l)))"
proof (cases "isActiveRun c token (dn 0) \<and> \<not> b")
  case True
  then show ?thesis by (simp add: pollCycle_def Let_def case_prod_beta)
next
  case False
  then have "pollCycle laneId token st h b m dn pn c
               = finishCycle laneId token st b m (laterReads 1 dn) pn c"
    unfolding pollCycle_def by (rule if_not_P)
  then show ?thesis
    using finishCycle_metrics[of laneId token st b m "laterReads 1 dn" pn c l] by simp
qed

lemma pollCycle_unconfirmed_metrics:
  "laneMetrics (lanes (fst (pollCycle laneId token st h False m dn pn c)) l) = laneMetrics (lanes c l)"
  by (simp add: pollCycle_def finishCycle_def sendCycle_metrics Let_def case_prod_beta)

lemma afterSend_metrics:
  "laneMetrics (lanes (fst (afterSend laneId token st k outcome dn pn c)) l) = laneMetrics (lanes c l)"
proof (cases outcome)
  case (Fulfilled r)
  have "laneMetrics (lanes (fst (pollCycle laneId token st (txHash r) False NoMethod dn' pn' c')) l)
          = laneMetrics (lanes c' l)" for dn' pn' c'
    by (rule pollCycle_unconfirmed_metrics)
  with Fulfilled show ?thesis
    by (simp add: afterSend_def Let_def) (simp add: laneMetrics_def)
next
  case (Rejected err)
  then show ?thesis
    by (simp add: afterSend_def Let_def laneMetrics_def)
qed

lemma afterConfirm_metrics:
  "laneMetrics (lanes (fst (afterConfirm laneId token st h k outcome dn pn c)) l)
     = laneMetrics (lanes c l)
   \<or> (\<exists>lat mt. laneMetrics (lanes (fst (afterConfirm laneId token st h k outcome dn pn c)) l)
                 = laneMetrics (recordConfirmation lat mt (lanes c l)))"
proof -
  have poll: "laneMetrics (lanes (fst (pollCycle laneId token st h b m (laterReads 2 dn) pn
                  (postJsonSettled k c))) l) = laneMetrics (lanes c l)
      \<or> (\<exists>lat mt. laneMetrics (lanes (fst (pollCycle laneId token st h b m (laterReads 2 dn) pn
                  (postJsonSettled k c))) l) = laneMetrics (recordConfirmation lat mt (lanes c l)))"
    for b m
    using pollCycle_metrics[of laneId token st h b m "laterReads 2 dn" pn "postJsonSettled k c" l]
    by simp
  show ?thesis
  proof (cases outcome)
    case (Fulfilled r)
    with poll[of "confirmed r" "methodTag r"] show ?thesis
      by (auto simp: afterConfirm_def Let_def)
  next
    case (Rejected err)
    with poll[of False NoMethod] show ?thesis
      by (auto simp: afterConfirm_def Let_def)
  qed
qed

lemma resumeLoop_metrics:
  "laneMetrics (lanes (fst (resumeLoop laneId token point wake dn pn c)) l) = laneMetrics (lanes c l)
   \<or> (\<exists>lat mt. laneMetrics (lanes (fst (resumeLoop laneId token point wake dn pn c)) l)
                 = laneMetrics (recordConfirmation lat mt (lanes c l)))"
proof (cases point)
  case (AwaitSend st k)
  then show ?thesis by (cases wake) (simp_all add: resumeLoop_def afterSend_metrics)
next
  case AwaitRetrySleep
  then show ?thesis by (cases wake) (simp_all add: resumeLoop_def sendCycle_metrics)
next
  case (AwaitConfirm st h k)
  then show ?thesis by (cases wake) (simp_all add: resumeLoop_def afterConfirm_metrics)
next
  case (AwaitPollSleep st h)
  then show ?thesis
    by (cases wake) (simp_all add: resumeLoop_def pollCycle_unconfirmed_metrics)
next
  case Returned
  then show ?thesis by (cases wake) (simp_all add: resumeLoop_def)
qed

lemma step_metrics:
  "laneMetrics (lanes (component (step sys event)) l) = laneMetrics (lanes (component sys) l)
   \<or> laneMetrics (lanes (component (step sys event)) l) = (0, None, None)
   \<or> (\<exists>lat mt. laneMetrics (lanes (component (step sys event)) l)
                 = laneMetrics (recordConfirmation lat mt (lanes (component sys) l)))"
proof (cases event)
  case (StartClicked dn pn)
  have "laneMetrics (lanes (component (startRun dn pn sys)) l) = laneMetrics (lanes (component sys) l)
      \<or> laneMetrics (lanes (component (startRun dn pn sys)) l) = (0, None, None)"
    by (simp add: startRun_def Let_def case_prod_beta sendCycle_metrics)
       (simp add: laneMetrics_def INITIAL_LANES_def INITIAL_LANE_def)
  with StartClicked show ?thesis by (auto simp: step_def)
next
  case StopClicked
  then show ?thesis by (simp add: step_def laneMetrics_def)
next
  case StopTimerFired
  then show ?thesis by (simp add: step_def laneMetrics_def)
next
  case (LoopResumed i wake dn pn)
  show ?thesis
  proof (cases "i < length (loops sys)")
    case False
    with LoopResumed show ?thesis by (simp add: step_def)
  next
    case True
    obtain laneId token point where entry: "loops sys ! i = (laneId, token, point)"
      by (cases "loops sys ! i") auto
    with LoopResumed True
    have "component (step sys event)
            = fst (resumeLoop laneId token point wake dn pn (component sys))"
      by (simp add: step_def case_prod_beta)
    with resumeLoop_metrics[of laneId token point wake dn pn "component sys" l]
    show ?thesis by auto
  qed
next
  case (AnimationTimerFired k now)
  then show ?thesis
    by (simp add: step_def sendAnimationTimerFired_def Let_def laneMetrics_def
             split: prod.splits)
qed

lemma mean_snoc:
  assumes "confirmationsObserved cur = length ls"
    and "averageLatencyMs cur = (if ls = [] then None else Some (sum_list ls / real (length ls)))"
  shows "((case averageLatencyMs cur of None \<Rightarrow> 0 | Some avg \<Rightarrow> avg)
            * real (confirmationsObserved cur) + l) / real (confirmationsObserved cur + 1)
         = sum_list (ls @ [l]) / real (length (ls @ [l]))"
proof (cases "ls = []")
  case True
  with assms show ?thesis by simp
next
  case False
  then have "real (length ls) \<noteq> 0" by simp
  with assms False show ?thesis by simp
qed

lemma history_step:
  assumes cnt: "confirmationsObserved (lanes (component sys) l) = length ls"
    and avg: "averageLatencyMs (lanes (component sys) l)
                = (if ls = [] then None else Some (sum_list ls / real (length ls)))"
  shows "confirmationsObserved (lanes (component (step sys event)) l)
           = length (observeConfirmation l sys (step sys event) ls)
       \<and> averageLatencyMs (lanes (component (step sys event)) l)
           = (if observeConfirmation l sys (step sys event) ls = [] then None
              else Some (sum_list (observeConfirmation l sys (step sys event) ls)
                         / real (length (observeConfirmation l sys (step sys event) ls))))"
proof -
  let ?before = "lanes (component sys) l"
  let ?after = "lanes (component (step sys event)) l"
  from step_metrics[of sys event l] consider
      (same) "laneMetrics ?after = laneMetrics ?before"
    | (reset) "laneMetrics ?after = (0, None, None)"
    | (confirm) lat mt where "laneMetrics ?after = laneMetrics (recordConfirmation lat mt ?before)"
    by blast
  then show ?thesis
  proof cases
    case same
    then have "confirmationsObserved ?after = confirmationsObserved ?before"
      and "averageLatencyMs ?after = averageLatencyMs ?before"
      by (simp_all add: laneMetrics_def)
    with cnt avg show ?thesis
      by (auto simp: observeConfirmation_def Let_def)
  next
    case reset
    then have "confirmationsObserved ?after = 0" and "averageLatencyMs ?after = None"
      by (simp_all add: laneMetrics_def)
    then show ?thesis
      by (simp add: observeConfirmation_def Let_def)
  next
    case confirm
    then have "laneMetrics ?after
        = (confirmationsObserved ?before + 1,
           Some (((case averageLatencyMs ?before of None \<Rightarrow> 0 | Some a \<Rightarrow> a)
                    * real (confirmationsObserved ?before) + lat)
                 / real (confirmationsObserved ?before + 1)),
           Some lat)"
      by (simp only: laneMetrics_recordConfirmation)
    then have n: "confirmationsObserved ?after = confirmationsObserved ?before + 1"
      and lt: "latestLatencyMs ?after = Some lat"
      and av: "averageLatencyMs ?after
                 = Some (((case averageLatencyMs ?before of None \<Rightarrow> 0 | Some a \<Rightarrow> a)
                            * real (confirmationsObserved ?before) + lat)
                         / real (confirmationsObserved ?before + 1))"
      by (simp_all add: laneMetrics_def)
    from n lt have obs: "observeConfirmation l sys (step sys event) ls = ls @ [lat]"
      by (simp add: observeConfirmation_def Let_def)
    from mean_snoc[OF cnt avg, of lat] av
    have "averageLatencyMs ?after = Some (sum_list (ls @ [lat]) / real (length (ls @ [lat])))"
      by simp
    with n cnt show ?thesis unfolding obs by simp
  qed
qed

lemma history_run:
  assumes "confirmationsObserved (lanes (component sys) l) = length ls"
    and "averageLatencyMs (lanes (component sys) l)
           = (if ls = [] then None else Some (sum_list ls / real (length ls)))"
  shows "confirmationsObserved (lanes (component (foldl step sys events)) l)
           = length (latencyHistory l sys events ls)
       \<and> averageLatencyMs (lanes (component (foldl step sys events)) l)
           = (if latencyHistory l sys events ls = [] then None
              else Some (sum_list (latencyHistory l sys events ls)
                         / real (length (latencyHistory l sys events ls))))"
  using assms
proof (induction events arbitrary: sys ls)
  case Nil
  then show ?case by simp
next
  case (Cons e es)
  from history_step[OF Cons.prems, of e]
  have "confirmationsObserved (lanes (component (step sys e)) l)
           = length (observeConfirmation l sys (step sys e) ls)"
    and "averageLatencyMs (lanes (component (step sys e)) l)
           = (if observeConfirmation l sys (step sys e) ls = [] then None
              else Some (sum_list (observeConfirmation l sys (step sys e) ls)
                         / real (length (observeConfirmation l sys (step sys e) ls))))"
    by simp_all
  from Cons.IH[OF this] show ?case by simp
qed

lemma recordConfirmation_fold:
  "confirmationsObserved st = 0 \<Longrightarrow>
   confirmationsObserved (foldl (\<lambda>cur (l, m). recordConfirmation l m cur) st ls) = length ls
   \<and> (ls \<noteq> [] \<longrightarrow>
        averageLatencyMs (foldl (\<lambda>cur (l, m). recordConfirmation l m cur) st ls)
          = Some (sum_list (map fst ls) / real (length ls))
        \<and> latestLatencyMs (foldl (\<lambda>cur (l, m). recordConfirmation l m cur) st ls)
          = Some (fst (last ls)))"
proof (induction ls rule: rev_induct)
  case Nil
  then show ?case by simp
next
  case (snoc x xs)
  obtain l m where x: "x = (l, m)" by (cases x)
  let ?st = "foldl (\<lambda>cur (l, m). recordConfirmation l m cur) st xs"
  from snoc have cnt: "confirmationsObserved ?st = length xs" by simp
  show ?case
  proof (cases "xs = []")
    case True
    with snoc.prems x show ?thesis by (simp add: recordConfirmation_def Let_def)
  next
    case False
    with snoc have avg: "averageLatencyMs ?st = Some (sum_list (map fst xs) / real (length xs))"
      by simp
    from False have "real (length xs) \<noteq> 0" by simp
    then show ?thesis
      using cnt avg x by (simp add: recordConfirmation_def Let_def)
  qed
qed

lemma finishCycle_records:
  assumes "isActiveRun c token (dateNow 0)"
  shows "laneMetrics (lanes (fst (finishCycle laneId token sendStartAt True m dateNow pnow c)) laneId)
           = laneMetrics (recordConfirmation (pnow 0 - sendStartAt) m (lanes c laneId))"
  using assms by (simp add: finishCycle_def Let_def sendCycle_metrics)

text \<open>
  Claim C4. A confirmation replaces the average by
  \<open>(oldAvg * oldCount + latencyMs) / (oldCount + 1)\<close>, with a missing average read as 0,
  increments \<open>confirmationsObserved\<close> and stores the latency as the latest one; a confirmed
  cycle of an active run applies it with the time elapsed since the cycle's start. Starting
  from the initial lane state, after \<open>N \<ge> 1\<close> confirmations with latencies \<open>l1..lN\<close> the
  average is \<open>(l1 + ... + lN) / N\<close> and the count is \<open>N\<close>. In every run, at every moment and
  for each lane, \<open>confirmationsObserved\<close> is the number of latencies observed since the run
  started and \<open>averageLatencyMs\<close> is their arithmetic mean (\<open>null\<close> when there is none).
  Arithmetic is exact (reals).
\<close>
theorem average_latency_is_running_mean:
  "averageLatencyMs (recordConfirmation latencyMs m cur)
     = Some (((case averageLatencyMs cur of None \<Rightarrow> 0 | Some avg \<Rightarrow> avg)
                * real (confirmationsObserved cur) + latencyMs)
             / real (confirmationsObserved cur + 1))
   \<and> confirmationsObserved (recordConfirmation latencyMs m cur) = confirmationsObserved cur + 1
   \<and> latestLatencyMs (recordConfirmation latencyMs m cur) = Some latencyMs
   \<and> (isActiveRun c token (dateNow 0) \<longrightarrow>
        laneMetrics (lanes (fst (finishCycle laneId token sendStartAt True m dateNow pnow c)) laneId)
          = laneMetrics (recordConfirmation (pnow 0 - sendStartAt) m (lanes c laneId)))
   \<and> (ls \<noteq> [] \<longrightarrow>
        averageLatencyMs (foldl (\<lambda>cur (l, m). recordConfirmation l m cur) INITIAL_LANE ls)
          = Some (sum_list (map fst ls) / real (length ls))
        \<and> confirmationsObserved (foldl (\<lambda>cur (l, m). recordConfirmation l m cur) INITIAL_LANE ls)
          = length ls)
   \<and> confirmationsObserved (lanes (component (foldl step initialSystem events)) laneId)
        = length (latencyHistory laneId initialSystem events [])
   \<and> averageLatencyMs (lanes (component (foldl step initialSystem events)) laneId)
        = (if latencyHistory laneId initialSystem events [] = [] then None
           else Some (sum_list (latencyHistory laneId initialSystem events [])
                      / real (length (latencyHistory laneId initialSystem events []))))"
proof -
  have zero: "confirmationsObserved INITIAL_LANE = 0" by (simp add: INITIAL_LANE_def)
  have init: "confirmationsObserved (lanes (component initialSystem) laneId) = length ([] :: real list)"
    "averageLatencyMs (lanes (component initialSystem) laneId)
       = (if ([] :: real list) = [] then None else Some (sum_list [] / real (length ([] :: real list))))"
    by (simp_all add: initialSystem_def INITIAL_LANES_def INITIAL_LANE_def)
  note run = history_run[OF init, of events]
  note fold = recordConfirmation_fold[OF zero, of ls]
  show ?thesis
    using run fold finishCycle_records[of c token dateNow laneId sendStartAt m pnow]
    by (simp add: recordConfirmation_def Let_def)
qed

text \<open>
  A run in which the flashblocks lane sends at 5 ms and is confirmed at 805 ms, and the
  mean of three latencies.
\<close>
theorem average_latency_is_running_mean_witness:
  "latencyHistory Flashblocks initialSystem
      [StartClicked (\<lambda>i. 1000) (\<lambda>i. 5),
       LoopResumed 0 (SendSettled (Fulfilled \<lparr> txHash = ''0xf1'', fromAddress = ''0xF1'' \<rparr>))
         (\<lambda>i. 1010) (\<lambda>i. 15),
       LoopResumed 0 (ConfirmSettled (Fulfilled
           \<lparr> confirmed = True, methodTag = Receipt, blockNumber = None \<rparr>)) (\<lambda>i. 1810) (\<lambda>i. 805)] []
     = [800]
   \<and> averageLatencyMs (lanes (component (foldl step initialSystem
      [StartClicked (\<lambda>i. 1000) (\<lambda>i. 5),
       LoopResumed 0 (SendSettled (Fulfilled \<lparr> txHash = ''0xf1'', fromAddress = ''0xF1'' \<rparr>))
         (\<lambda>i. 1010) (\<lambda>i. 15),
       LoopResumed 0 (ConfirmSettled (Fulfilled
           \<lparr> confirmed = True, methodTag = Receipt, blockNumber = None \<rparr>)) (\<lambda>i. 1810) (\<lambda>i. 805)]))
      Flashblocks) = Some 800
   \<and> averageLatencyMs (foldl (\<lambda>cur (l, m). recordConfirmation l m cur) INITIAL_LANE
       [(800, Receipt), (900, Receipt), (1000, Receipt)]) = Some 900
   \<and> isActiveRun (component (step initialSystem (StartClicked (\<lambda>i. 1000) (\<lambda>i. 5)))) 1 1810
   \<and> laneMetrics (lanes (fst (finishCycle Flashblocks 1 5 True Receipt (\<lambda>i. 1810) (\<lambda>i. 805)
          (component (step initialSystem (StartClicked (\<lambda>i. 1000) (\<lambda>i. 5)))))) Flashblocks)
       = (1, Some 800, Some 800)"
proof -
  let ?c = "component (step initialSystem (StartClicked (\<lambda>i. 1000) (\<lambda>i. 5)))"
  have tok: "runTokenRef ?c = 1" and dl: "runDeadlineRef ?c = Some 9000"
    by (simp_all add: step_def initialSystem_def startRun_def sendCycle_frame
          MAX_RUNTIME_MS_def Let_def case_prod_beta laterReads_def)
  have act: "isActiveRun ?c 1 1810"
    by (simp add: isActiveRun_def tok dl)
  have fresh: "laneMetrics (lanes ?c Flashblocks) = (0, None, None)"
    by (simp add: step_def initialSystem_def startRun_def sendCycle_metrics
          Let_def case_prod_beta)
       (simp add: laneMetrics_def INITIAL_LANES_def INITIAL_LANE_def)
  have "laneMetrics (lanes (fst (finishCycle Flashblocks 1 5 True Receipt (\<lambda>i. 1810) (\<lambda>i. 805) ?c))
          Flashblocks)
        = laneMetrics (recordConfirmation (805 - 5) Receipt (lanes ?c Flashblocks))"
    using average_latency_is_running_mean
            [where c = ?c and token = 1 and dateNow = "\<lambda>i. 1810" and laneId = Flashblocks
               and sendStartAt = 5 and m = Receipt and pnow = "\<lambda>i. 805"] act
    by blast
  also have "\<dots> = (1, Some 800, Some 800)"
    using fresh by (simp add: laneMetrics_recordConfirmation) (simp add: laneMetrics_def)
  finally have cycle: "laneMetrics (lanes (fst (finishCycle Flashblocks 1 5 True Receipt
          (\<lambda>i. 1810) (\<lambda>i. 805) ?c)) Flashblocks) = (1, Some 800, Some 800)" .
  let ?events = "[StartClicked (\<lambda>i. 1000) (\<lambda>i. 5),
       LoopResumed 0 (SendSettled (Fulfilled \<lparr> txHash = ''0xf1'', fromAddress = ''0xF1'' \<rparr>))
         (\<lambda>i. 1010) (\<lambda>i. 15),
       LoopResumed 0 (ConfirmSettled (Fulfilled
           \<lparr> confirmed = True, methodTag = Receipt, blockNumber = None \<rparr>)) (\<lambda>i. 1810) (\<lambda>i. 805)]"
  have h: "latencyHistory Flashblocks initialSystem ?events [] = [800]"
    by (simp add: observeConfirmation_def step_def initialSystem_def startRun_def sendCycle_def
          afterSend_def afterConfirm_def pollCycle_def finishCycle_def resumeLoop_def
          recordConfirmation_def isActiveRun_def postJson_def postJsonSettled_def updateLane_def
          triggerLaneSendAnimation_def scheduleLaneSendAnimation_def laterReads_def
          INITIAL_LANES_def INITIAL_LANE_def MAX_RUNTIME_MS_def Let_def case_prod_beta)
  have run: "averageLatencyMs (lanes (component (foldl step initialSystem ?events)) Flashblocks)
      = (if latencyHistory Flashblocks initialSystem ?events [] = [] then None
         else Some (sum_list (latencyHistory Flashblocks initialSystem ?events [])
                    / real (length (latencyHistory Flashblocks initialSystem ?events []))))"
    using average_latency_is_running_mean[where events = ?events and laneId = Flashblocks]
    by blast
  have fold: "averageLatencyMs (foldl (\<lambda>cur (l, m). recordConfirmation l m cur) INITIAL_LANE
       [(800, Receipt), (900, Receipt), (1000, Receipt)])
      = Some (sum_list (map fst [(800 :: real, Receipt), (900, Receipt), (1000, Receipt)])
              / real (length [(800 :: real, Receipt), (900, Receipt), (1000, Receipt)]))"
    using average_latency_is_running_mean
            [where ls = "[(800, Receipt), (900, Receipt), (1000, Receipt)]"]
    by blast
  have "averageLatencyMs (lanes (component (foldl step initialSystem ?events)) Flashblocks) = Some 800"
    unfolding run h by simp
  moreover have "averageLatencyMs (foldl (\<lambda>cur (l, m). recordConfirmation l m cur) INITIAL_LANE
       [(800, Receipt), (900, Receipt), (1000, Receipt)]) = Some 900"
    unfolding fold by simp
  ultimately show ?thesis using h act cycle by (intro conjI)
qed

end
